theory Spec2Isabelle
  imports Complex_Main "HOL-Library.Log_Nat"
begin

section \<open>Python values used by the backend\<close>

text \<open>
  Exceptions are values. \<open>KeyError k\<close> is the failed lookup of key \<open>k\<close> in a
  dictionary; \<open>ValueError\<close> carries its message; \<open>ScanError\<close> stands for any
  exception raised while a target is being scanned (a provider failure, or the
  \<open>TypeError\<close> of a call that does not fit the scanner class); \<open>TriggerError\<close> for an
  interval the job scheduler library refuses; \<open>DatabaseError\<close> for a failed commit.
\<close>

datatype py_error =
  KeyError string | ValueError string | ScanError string | TriggerError | DatabaseError

text \<open>A dictionary with string keys and string values, in insertion order.\<close>

type_synonym pydict = "(string \<times> string) list"

text \<open>\<open>d.get(key, dflt)\<close>: the entry under \<open>key\<close>, or \<open>dflt\<close> when there is none.\<close>

definition dict_get :: "pydict \<Rightarrow> string \<Rightarrow> string \<Rightarrow> string" where
  "dict_get d key dflt = (case map_of d key of None \<Rightarrow> dflt | Some v \<Rightarrow> v)"

subsection \<open>Binary floating point\<close>

text \<open>
  A Python \<open>float\<close> is an IEEE 754 binary64 number. A finite one is modelled by its
  exact rational value, and every arithmetic operation by the exact operation followed
  by rounding to the nearest number with a 53 bit significand, ties to the even
  significand. The exponent range is not modelled (no overflow, no subnormal numbers):
  the scores computed here are quotients of list lengths scaled to the range 0 to 100.
\<close>

text \<open>Rounding a rational to the nearest integer, ties to even.\<close>

definition rne :: "rat \<Rightarrow> int" where
  "rne x = (let f = \<lfloor>x\<rfloor>; d = x - of_int f in
     if d < 1/2 then f else if 1/2 < d then f + 1 else if even f then f else f + 1)"

text \<open>The binary exponent of a positive rational: the \<open>e\<close> with \<open>2^e \<le> x < 2^(e+1)\<close>.\<close>

definition binade :: "rat \<Rightarrow> int" where
  "binade x = (let (a, b) = quotient_of x; k = bitlen a - bitlen b in
     if 2 powi k \<le> x then k else k - 1)"

text \<open>The nearest binary64 number.\<close>

definition fl :: "rat \<Rightarrow> rat" where
  "fl x = (if x = 0 then 0 else
     let u = 2 powi (binade \<bar>x\<bar> - 52) in of_int (rne (x / u)) * u)"

text \<open>
  \<open>a / b\<close> on integers (true division, correctly rounded); every caller guards
  \<open>b \<noteq> 0\<close>. \<open>x * y\<close> and \<open>x - y\<close> on floats.
\<close>

definition py_truediv :: "int \<Rightarrow> int \<Rightarrow> rat" where
  "py_truediv a b = fl (of_int a / of_int b)"

definition py_mul :: "rat \<Rightarrow> rat \<Rightarrow> rat" where
  "py_mul x y = fl (x * y)"

definition py_sub :: "rat \<Rightarrow> rat \<Rightarrow> rat" where
  "py_sub x y = fl (x - y)"

text \<open>
  \<open>round(x, 2)\<close>: the decimal with two fractional digits nearest to the exact value
  of \<open>x\<close> (ties to even), converted back to the nearest float.
\<close>

definition py_round2 :: "rat \<Rightarrow> rat" where
  "py_round2 x = fl (of_int (rne (x * 100)) / 100)"

text \<open>\<open>int(x)\<close> on a float: truncation towards zero.\<close>

definition py_int :: "rat \<Rightarrow> int" where
  "py_int x = (if 0 \<le> x then \<lfloor>x\<rfloor> else \<lceil>x\<rceil>)"

text \<open>\<open>str(n)\<close> for a natural number.\<close>

function str_nat :: "nat \<Rightarrow> string" where
  "str_nat n = (if n < 10 then [''0123456789'' ! n]
     else str_nat (n div 10) @ [''0123456789'' ! (n mod 10)])"
  by pat_completeness auto
termination
  by (relation "measure id") auto

declare str_nat.simps [simp del]

section \<open>utils/compliance\_framework.py: the severity weighted score\<close>

record severity_info =
  score :: int
  description :: string

definition SEVERITY_LEVELS :: "(string \<times> severity_info) list" where
  "SEVERITY_LEVELS =
    [(''CRITICAL'', \<lparr>score = 10,
        description = ''Immediate action required - severe security risk''\<rparr>),
     (''HIGH'', \<lparr>score = 7,
        description = ''High priority - significant security concern''\<rparr>),
     (''MEDIUM'', \<lparr>score = 4,
        description = ''Medium priority - moderate security issue''\<rparr>),
     (''LOW'', \<lparr>score = 2,
        description = ''Low priority - minor security consideration''\<rparr>)]"

text \<open>
  \<open>sum(SEVERITY_LEVELS[v.get('severity', 'LOW')]['score'] for v in violations)\<close>:
  the subscript raises \<open>KeyError\<close> at the first violation, from the left, whose
  severity is not a key of the table.
\<close>

fun sum_scores :: "pydict list \<Rightarrow> py_error + int" where
  "sum_scores [] = Inr 0"
| "sum_scores (v # vs) =
     (case map_of SEVERITY_LEVELS (dict_get v ''severity'' ''LOW'') of
        None \<Rightarrow> Inl (KeyError (dict_get v ''severity'' ''LOW''))
      | Some info \<Rightarrow>
          (case sum_scores vs of
             Inl e \<Rightarrow> Inl e
           | Inr t \<Rightarrow> Inr (score info + t)))"

definition get_compliance_score :: "pydict list \<Rightarrow> py_error + rat" where
  "get_compliance_score violations =
     (if violations = [] then Inr 100
      else case sum_scores violations of
        Inl e \<Rightarrow> Inl e
      | Inr total_severity \<Rightarrow>
          let max_possible = int (length violations) * 10;
              compliance_score =
                max 0 (py_sub 100 (py_mul (py_truediv total_severity max_possible) 100))
          in Inr (py_round2 compliance_score))"

subsection \<open>The score as the specification words it\<close>

text \<open>
  The weight of a violation by its severity, a missing and an unknown severity both
  weighing as LOW; and the formula \<open>max(0, 100 - (sum / (count * 10)) * 100)\<close> rounded to
  two decimal places, in float arithmetic.
\<close>

definition spec_weight :: "pydict \<Rightarrow> int" where
  "spec_weight v =
     (case map_of v ''severity'' of
        None \<Rightarrow> 2
      | Some s \<Rightarrow>
          if s = ''CRITICAL'' then 10 else if s = ''HIGH'' then 7
          else if s = ''MEDIUM'' then 4 else 2)"

definition spec_score :: "pydict list \<Rightarrow> rat" where
  "spec_score vs =
     (if vs = [] then 100
      else py_round2 (max 0
        (py_sub 100 (py_mul (py_truediv (sum_list (map spec_weight vs)) (int (length vs) * 10)) 100))))"

text \<open>A violation whose severity entry is present and is none of the four names.\<close>

definition unknown_severity :: "pydict \<Rightarrow> bool" where
  "unknown_severity v =
     (case map_of v ''severity'' of
        None \<Rightarrow> False
      | Some s \<Rightarrow> s \<notin> {''CRITICAL'', ''HIGH'', ''MEDIUM'', ''LOW''})"

section \<open>scanners/iam\_scanner.py: the risk classifier\<close>

definition RISKY_POLICIES :: "string list" where
  "RISKY_POLICIES = [''AdministratorAccess'', ''PowerUserAccess'', ''IAMFullAccess'',
     ''SecurityAudit'', ''*FullAccess'']"

text \<open>\<open>needle in s\<close> on strings: \<open>needle\<close> occurs in \<open>s\<close> as a contiguous piece.\<close>

fun str_contains :: "string \<Rightarrow> string \<Rightarrow> bool" where
  "str_contains needle [] = (needle = [])"
| "str_contains needle (c # cs) =
     (take (length needle) (c # cs) = needle \<or> str_contains needle cs)"

text \<open>
  The loop over the attached policies of \<open>analyze_risk\<close>, appending to
  \<open>risk_reasons\<close>.
\<close>

fun check_attached :: "string list \<Rightarrow> string list \<Rightarrow> string list" where
  "check_attached [] risk_reasons = risk_reasons"
| "check_attached (policy # rest) risk_reasons =
     check_attached rest
       (if policy \<in> set RISKY_POLICIES then risk_reasons @ [''Has '' @ policy @ '' policy'']
        else if str_contains ''FullAccess'' policy
          then risk_reasons @ [''Has '' @ policy @ '' policy'']
        else risk_reasons)"

definition analyze_risk :: "string list \<Rightarrow> string list \<Rightarrow> string \<times> string list" where
  "analyze_risk attached_policies inline_policies =
     (let r1 = check_attached attached_policies [];
          total_policies = length attached_policies + length inline_policies;
          r2 = (if total_policies > 10
                then r1 @ [''Has '' @ str_nat total_policies @ '' policies (excessive)'']
                else r1);
          risk_reasons =
            (if length inline_policies > 0
             then r2 @ [''Has '' @ str_nat (length inline_policies) @ '' inline policies'']
             else r2);
          risk_level =
            (if ''AdministratorAccess'' \<in> set attached_policies
                \<or> ''IAMFullAccess'' \<in> set attached_policies then ''CRITICAL''
             else if length risk_reasons \<ge> 3 then ''HIGH''
             else if length risk_reasons > 0 then ''MEDIUM''
             else ''LOW'')
      in (risk_level, risk_reasons))"

section \<open>database/models.py and database/db.py: tables and sessions\<close>

text \<open>
  A point in time, in seconds. Every clock of the program (\<open>datetime.now\<close>,
  \<open>datetime.utcnow\<close>) is read from one clock.
\<close>

type_synonym timestamp = int

text \<open>
  A row of \<open>scan_results\<close>. The primary key \<open>id\<close> (a fresh uuid per row) and the two
  free text columns \<open>description\<close> and \<open>remediation_suggestion\<close> are left out: the scans
  copy the texts from the finding into the row and nothing modelled here reads them. The
  columns a caller can leave or set to \<open>None\<close> are options.
\<close>

record scan_result =
  sr_scan_id :: "string option"
  sr_resource_id :: string
  sr_resource_type :: string
  sr_violation_name :: string
  sr_severity :: string
  sr_compliance_framework :: string
  sr_is_compliant :: bool
  sr_cloud_provider :: string
  sr_account_id :: "string option"
  sr_region :: "string option"
  sr_timestamp :: timestamp
  sr_first_detected :: "timestamp option"
  sr_status :: string

text \<open>A row of \<open>scan_history\<close>, without its primary key \<open>id\<close>.\<close>

record scan_history =
  sh_scan_id :: string
  sh_account_id :: "string option"
  sh_region :: "string option"
  sh_timestamp :: timestamp
  sh_total_resources :: int
  sh_compliant_count :: int
  sh_violation_count :: int
  sh_compliance_score :: int
  sh_critical_count :: int
  sh_high_count :: int
  sh_medium_count :: int
  sh_low_count :: int
  sh_scan_duration :: int
  sh_triggered_by :: string

text \<open>The committed tables: what every reader of the database sees.\<close>

record database =
  scan_results :: "scan_result list"
  scan_history_rows :: "scan_history list"

text \<open>
  A session (\<open>autocommit=False, autoflush=False\<close>): the committed tables and the
  additions and deletions that wait for the next commit. A query reads the committed
  tables only. \<open>observed\<close> is not program state: it records, in order, each state of the
  tables that a commit of this session made visible to readers.
\<close>

record session =
  committed :: database
  pending_results :: "scan_result list"
  pending_history :: "scan_history list"
  pending_deletes :: "scan_result list"
  observed :: "database list"

definition SessionLocal :: "database \<Rightarrow> session" where
  "SessionLocal d = \<lparr>committed = d, pending_results = [], pending_history = [],
     pending_deletes = [], observed = []\<rparr>"

definition db_add :: "session \<Rightarrow> scan_result \<Rightarrow> session" where
  "db_add db r = db\<lparr>pending_results := pending_results db @ [r]\<rparr>"

definition db_add_history :: "session \<Rightarrow> scan_history \<Rightarrow> session" where
  "db_add_history db h = db\<lparr>pending_history := pending_history db @ [h]\<rparr>"

text \<open>
  \<open>db.delete(row)\<close>. Rows carry no key in this model, so a row is deleted by value; the
  only caller deletes every row of a scope, which deletes equal rows together anyway.
\<close>

definition db_delete :: "session \<Rightarrow> scan_result \<Rightarrow> session" where
  "db_delete db r = db\<lparr>pending_deletes := pending_deletes db @ [r]\<rparr>"

definition db_rollback :: "session \<Rightarrow> session" where
  "db_rollback db = db\<lparr>pending_results := [], pending_history := [], pending_deletes := []\<rparr>"

text \<open>
  The constraints of the schema that the modelled columns can violate: \<open>region\<close> of a
  result and \<open>account_id\<close>, \<open>region\<close> of a history row are \<open>nullable=False\<close>, and
  \<open>scan_id\<close> of a history row is \<open>unique=True\<close>.
\<close>

definition constraints_hold :: "session \<Rightarrow> bool" where
  "constraints_hold db =
     (list_all (\<lambda>r. sr_region r \<noteq> None) (pending_results db)
      \<and> list_all (\<lambda>h. sh_account_id h \<noteq> None \<and> sh_region h \<noteq> None) (pending_history db)
      \<and> distinct (map sh_scan_id (pending_history db))
      \<and> list_all (\<lambda>h. sh_scan_id h \<notin> set (map sh_scan_id (scan_history_rows (committed db))))
            (pending_history db))"

text \<open>
  \<open>db.commit()\<close>: all pending changes become visible at once, or the commit raises and
  nothing is written. Failures of the database engine itself are outside the model.
\<close>

definition db_commit :: "session \<Rightarrow> py_error + session" where
  "db_commit db =
     (if constraints_hold db then
        let d = \<lparr>scan_results =
                   filter (\<lambda>r. r \<notin> set (pending_deletes db)) (scan_results (committed db))
                     @ pending_results db,
                 scan_history_rows = scan_history_rows (committed db) @ pending_history db\<rparr>
        in Inr \<lparr>committed = d, pending_results = [], pending_history = [],
                pending_deletes = [], observed = observed db @ [d]\<rparr>
      else Inl DatabaseError)"

text \<open>The rows of one scope: \<open>account_id\<close> and \<open>region\<close> both equal the scanner's.\<close>

definition in_scope :: "string \<Rightarrow> string \<Rightarrow> scan_result \<Rightarrow> bool" where
  "in_scope account_id region r =
     (sr_account_id r = Some account_id \<and> sr_region r = Some region)"

definition active_for :: "string \<Rightarrow> string \<Rightarrow> database \<Rightarrow> scan_result list" where
  "active_for account_id region d = filter (in_scope account_id region) (scan_results d)"

text \<open>The tables with the rows of one scope removed.\<close>

definition without_scope :: "string \<Rightarrow> string \<Rightarrow> database \<Rightarrow> database" where
  "without_scope account_id region d =
     \<lparr>scan_results = filter (\<lambda>r. \<not> in_scope account_id region r) (scan_results d),
      scan_history_rows = scan_history_rows d\<rparr>"

text \<open>A session with nothing waiting for a commit, as a request handler receives it.\<close>

definition nothing_pending :: "session \<Rightarrow> bool" where
  "nothing_pending db =
     (pending_results db = [] \<and> pending_history db = [] \<and> pending_deletes db = [])"

section \<open>scanners/aws\_scanner.py\<close>

text \<open>
  What a call of the cloud provider's client raises: the \<open>NotFoundError\<close> of a bucket
  without encryption configuration (a subclass of \<open>ClientError\<close>), a \<open>ClientError\<close> with
  its error code, or any other exception.
\<close>

datatype aws_error = NotFoundError | ClientError string | OtherError

record security_group =
  GroupId :: string
  GroupName :: string
  IpPermissions :: "string option list list"

record trail =
  TrailName :: string
  TrailARN :: string

record db_instance =
  DBInstanceIdentifier :: string
  StorageEncrypted :: bool
  PubliclyAccessible :: bool

text \<open>
  The provider as the scanner sees it: the answer to each call. \<open>IpPermissions\<close> of a
  security group lists, per rule, the \<open>CidrIp\<close> entry of each of its \<open>IpRanges\<close>.
  \<open>list_users\<close> is paginated: each page is fetched when the loop reaches it.
  \<open>get_bucket_encryption\<close> answers whether the response has the entry
  \<open>ServerSideEncryptionConfiguration\<close>; \<open>get_trail_status\<close> answers \<open>IsLogging\<close>, and the
  two flags of a database instance are those of the response, each \<open>False\<close> when the
  entry is missing, as the scanner reads them.
\<close>

record aws_env =
  list_buckets :: "aws_error + string list"
  get_bucket_encryption :: "string \<Rightarrow> aws_error + bool"
  list_users_pages :: "(aws_error + string list) list"
  list_attached_user_policies :: "string \<Rightarrow> aws_error + string list"
  describe_security_groups :: "aws_error + security_group list"
  describe_trails :: "aws_error + trail list"
  get_trail_status :: "string \<Rightarrow> aws_error + bool"
  describe_db_instances :: "aws_error + db_instance list"

text \<open>
  A finding as the scanners return it, without the two free text entries
  \<open>description\<close> and \<open>remediation\<close>.
\<close>

record violation =
  resource_id :: string
  resource_type :: string
  violation_name :: string
  severity :: string
  compliance_framework :: string

text \<open>
  The loop over the buckets of \<open>scan_s3_encryption\<close>. A \<open>ClientError\<close> skips the bucket;
  any other exception leaves the loop through the outer handler with the findings so far.
\<close>

fun s3_buckets_loop ::
  "(string \<Rightarrow> aws_error + bool) \<Rightarrow> string list \<Rightarrow> violation list \<Rightarrow> violation list" where
  "s3_buckets_loop enc [] violations = violations"
| "s3_buckets_loop enc (bucket_name # rest) violations =
     (case enc bucket_name of
        Inr has_configuration \<Rightarrow>
          s3_buckets_loop enc rest
            (if \<not> has_configuration then
               violations @ [\<lparr>resource_id = bucket_name, resource_type = ''S3 Bucket'',
                 violation_name = ''Unencrypted S3 Bucket'', severity = ''HIGH'',
                 compliance_framework = ''NIST SP 800-53 SC-28''\<rparr>]
             else violations)
      | Inl NotFoundError \<Rightarrow>
          s3_buckets_loop enc rest
            (violations @ [\<lparr>resource_id = bucket_name, resource_type = ''S3 Bucket'',
               violation_name = ''S3 Encryption Not Configured'', severity = ''CRITICAL'',
               compliance_framework = ''ISO 27001 A.10.1.1''\<rparr>])
      | Inl (ClientError code) \<Rightarrow> s3_buckets_loop enc rest violations
      | Inl OtherError \<Rightarrow> violations)"

definition scan_s3_encryption :: "aws_env \<Rightarrow> violation list" where
  "scan_s3_encryption env =
     (case list_buckets env of
        Inl e \<Rightarrow> []
      | Inr buckets \<Rightarrow> s3_buckets_loop (get_bucket_encryption env) buckets [])"

text \<open>
  \<open>scan_iam_policies\<close>: per user, one finding for each attached policy named
  \<open>AdministratorAccess\<close> or \<open>PowerUserAccess\<close>. The result of the loop over users says
  whether it ended normally.
\<close>

fun iam_users_loop ::
  "(string \<Rightarrow> aws_error + string list) \<Rightarrow> string list \<Rightarrow> violation list
     \<Rightarrow> bool \<times> violation list" where
  "iam_users_loop pol [] violations = (True, violations)"
| "iam_users_loop pol (username # rest) violations =
     (case pol username of
        Inr policies \<Rightarrow>
          iam_users_loop pol rest
            (violations @
               map (\<lambda>policy. \<lparr>resource_id = username, resource_type = ''IAM User'',
                      violation_name = ''Overly Permissive IAM Policy'', severity = ''CRITICAL'',
                      compliance_framework = ''NIST SP 800-53 AC-6''\<rparr>)
                 (filter (\<lambda>policy. policy \<in> set [''AdministratorAccess'', ''PowerUserAccess''])
                    policies))
      | Inl OtherError \<Rightarrow> (False, violations)
      | Inl e \<Rightarrow> iam_users_loop pol rest violations)"

fun iam_pages_loop ::
  "(string \<Rightarrow> aws_error + string list) \<Rightarrow> (aws_error + string list) list \<Rightarrow> violation list
     \<Rightarrow> violation list" where
  "iam_pages_loop pol [] violations = violations"
| "iam_pages_loop pol (Inl e # rest) violations = violations"
| "iam_pages_loop pol (Inr users # rest) violations =
     (case iam_users_loop pol users violations of
        (True, violations') \<Rightarrow> iam_pages_loop pol rest violations'
      | (False, violations') \<Rightarrow> violations')"

definition scan_iam_policies :: "aws_env \<Rightarrow> violation list" where
  "scan_iam_policies env =
     iam_pages_loop (list_attached_user_policies env) (list_users_pages env) []"

definition scan_security_groups :: "aws_env \<Rightarrow> violation list" where
  "scan_security_groups env =
     (case describe_security_groups env of
        Inl e \<Rightarrow> []
      | Inr groups \<Rightarrow>
          [\<lparr>resource_id = GroupId sg, resource_type = ''Security Group'',
             violation_name = ''Unrestricted Inbound Access'', severity = ''HIGH'',
             compliance_framework = ''NIST SP 800-53 SC-7''\<rparr>.
           sg \<leftarrow> groups, rule \<leftarrow> IpPermissions sg, ip_range \<leftarrow> rule,
           ip_range = Some ''0.0.0.0/0''])"

text \<open>
  The loop over the trails of \<open>scan_cloudtrail_logging\<close>; a failing \<open>get_trail_status\<close>
  leaves it through the outer handler.
\<close>

fun trails_loop ::
  "(string \<Rightarrow> aws_error + bool) \<Rightarrow> trail list \<Rightarrow> violation list \<Rightarrow> violation list" where
  "trails_loop st [] violations = violations"
| "trails_loop st (t # rest) violations =
     (case st (TrailARN t) of
        Inl e \<Rightarrow> violations
      | Inr is_logging \<Rightarrow>
          trails_loop st rest
            (if \<not> is_logging then
               violations @ [\<lparr>resource_id = TrailName t, resource_type = ''CloudTrail'',
                 violation_name = ''CloudTrail Not Logging'', severity = ''HIGH'',
                 compliance_framework = ''ISO 27001 A.12.4.1''\<rparr>]
             else violations))"

definition scan_cloudtrail_logging :: "string \<Rightarrow> aws_env \<Rightarrow> violation list" where
  "scan_cloudtrail_logging account_id env =
     (case describe_trails env of
        Inl e \<Rightarrow> []
      | Inr trailList \<Rightarrow>
          if trailList = [] then
            [\<lparr>resource_id = ''account-'' @ account_id, resource_type = ''CloudTrail'',
              violation_name = ''CloudTrail Not Enabled'', severity = ''CRITICAL'',
              compliance_framework = ''NIST SP 800-53 AU-2''\<rparr>]
          else trails_loop (get_trail_status env) trailList [])"

definition scan_rds_encryption :: "aws_env \<Rightarrow> violation list" where
  "scan_rds_encryption env =
     (case describe_db_instances env of
        Inl e \<Rightarrow> []
      | Inr instances \<Rightarrow>
          concat (map (\<lambda>db_instance.
            (if \<not> StorageEncrypted db_instance then
               [\<lparr>resource_id = DBInstanceIdentifier db_instance, resource_type = ''RDS Instance'',
                 violation_name = ''Unencrypted RDS Instance'', severity = ''CRITICAL'',
                 compliance_framework = ''NIST SP 800-53 SC-28''\<rparr>]
             else [])
            @ (if PubliclyAccessible db_instance then
               [\<lparr>resource_id = DBInstanceIdentifier db_instance, resource_type = ''RDS Instance'',
                 violation_name = ''Publicly Accessible RDS Instance'', severity = ''CRITICAL'',
                 compliance_framework = ''NIST SP 800-53 SC-7''\<rparr>]
             else [])) instances))"

text \<open>
  The row \<open>scan_all_resources\<close> builds from a finding. \<open>scan_id\<close> and \<open>first_detected\<close>
  are not given and stay \<open>None\<close>; \<open>status\<close> is not given and takes the column's default
  \<open>NEW\<close>. The clock is read once per row; the model gives the rows of one call one reading.
\<close>

definition ScanResult_of :: "string \<Rightarrow> string \<Rightarrow> timestamp \<Rightarrow> violation \<Rightarrow> scan_result" where
  "ScanResult_of account_id region now v =
     \<lparr>sr_scan_id = None, sr_resource_id = resource_id v, sr_resource_type = resource_type v,
      sr_violation_name = violation_name v, sr_severity = severity v,
      sr_compliance_framework = compliance_framework v, sr_is_compliant = False,
      sr_cloud_provider = ''AWS'', sr_account_id = Some account_id, sr_region = Some region,
      sr_timestamp = now, sr_first_detected = None, sr_status = ''NEW''\<rparr>"

text \<open>
  The first block of \<open>scan_all_resources\<close>: delete the old rows of the scope and commit;
  on an exception log it and roll back.
\<close>

definition clear_old_results :: "string \<Rightarrow> string \<Rightarrow> session \<Rightarrow> session" where
  "clear_old_results account_id region db =
     (let old_results = filter (in_scope account_id region) (scan_results (committed db));
          db' = fold (\<lambda>result s. db_delete s result) old_results db
      in case db_commit db' of Inr db'' \<Rightarrow> db'' | Inl e \<Rightarrow> db_rollback db')"

definition run_all_scanners :: "string \<Rightarrow> aws_env \<Rightarrow> violation list" where
  "run_all_scanners account_id env =
     scan_s3_encryption env @ scan_iam_policies env @ scan_security_groups env
       @ scan_cloudtrail_logging account_id env @ scan_rds_encryption env"

definition scan_all_resources ::
  "string \<Rightarrow> string \<Rightarrow> aws_env \<Rightarrow> timestamp \<Rightarrow> session \<Rightarrow> py_error + session" where
  "scan_all_resources account_id region env now db =
     (let db1 = clear_old_results account_id region db;
          all_violations = run_all_scanners account_id env;
          db2 = fold (\<lambda>violation s. db_add s (ScanResult_of account_id region now violation))
                  all_violations db1
      in db_commit db2)"

text \<open>A provider whose every listing call fails: no inventory can be fetched for the scope.\<close>

definition inventory_fetch_fails :: "aws_env \<Rightarrow> bool" where
  "inventory_fetch_fails env =
     (isl (list_buckets env) \<and> (case list_users_pages env of [] \<Rightarrow> False | p # ps \<Rightarrow> isl p)
      \<and> isl (describe_security_groups env) \<and> isl (describe_trails env)
      \<and> isl (describe_db_instances env))"

section \<open>scheduler.py\<close>

text \<open>
  A monitored target, a dictionary read with \<open>get\<close>: an entry that is missing is \<open>None\<close>.
\<close>

record account =
  acc_account_id :: "string option"
  acc_region :: "string option"
  acc_access_key :: "string option"
  acc_secret_key :: "string option"

record monitoring_config =
  enabled :: bool
  interval_hours :: int
  accounts :: "account list"

definition DEFAULT_CONFIG :: monitoring_config where
  "DEFAULT_CONFIG = \<lparr>enabled = False, interval_hours = 24, accounts = []\<rparr>"

text \<open>
  The configuration file holds a configuration, or is missing or unreadable (\<open>None\<close>).
\<close>

definition load_config :: "monitoring_config option \<Rightarrow> monitoring_config" where
  "load_config config_file = (case config_file of Some c \<Rightarrow> c | None \<Rightarrow> DEFAULT_CONFIG)"

text \<open>
  \<open>save_config\<close> returns the file after the call and whether it was written; when the
  file cannot be opened for writing the error is logged and the file keeps its contents.
\<close>

definition save_config ::
  "bool \<Rightarrow> monitoring_config \<Rightarrow> monitoring_config option \<Rightarrow> monitoring_config option \<times> bool" where
  "save_config writable config config_file =
     (if writable then (Some config, True) else (config_file, False))"

text \<open>
  An entry of the list \<open>results\<close> that \<open>scanner.scan_all()\<close> returns, without the two free
  text entries \<open>description\<close> and \<open>remediation_suggestion\<close>.
\<close>

record result =
  r_resource_id :: string
  r_resource_type :: string
  r_violation_name :: string
  r_severity :: string
  r_compliance_framework :: string
  r_is_compliant :: bool

text \<open>
  The job builds \<open>AWSScanner(account_id, region, access_key, secret_key)\<close> and calls its
  \<open>scan_all()\<close>. The class of scanners/aws\_scanner.py takes neither key and has no such
  method, so against it the construction raises \<open>TypeError\<close>. The job is modelled for
  any scanner: a function from the target and the time the scan starts to the exception
  raised, or to the results and the time the scan ends. The clock moves during a scan only.
\<close>

type_synonym scanner = "account \<Rightarrow> timestamp \<Rightarrow> py_error + (result list \<times> timestamp)"

text \<open>
  The loop \<open>severity_counts[severity] = severity_counts.get(severity, 0) + 1\<close>, the
  dictionary read as a function with 0 for a key it lacks.
\<close>

definition count_severities :: "result list \<Rightarrow> string \<Rightarrow> int" where
  "count_severities violations =
     fold (\<lambda>v severity_counts.
        severity_counts(r_severity v := severity_counts (r_severity v) + 1))
       violations (\<lambda>severity. 0)"

definition scheduled_ScanResult ::
  "string \<Rightarrow> account \<Rightarrow> timestamp \<Rightarrow> result \<Rightarrow> scan_result" where
  "scheduled_ScanResult scan_id account now r =
     \<lparr>sr_scan_id = Some scan_id, sr_resource_id = r_resource_id r,
      sr_resource_type = r_resource_type r, sr_violation_name = r_violation_name r,
      sr_severity = r_severity r, sr_compliance_framework = r_compliance_framework r,
      sr_is_compliant = r_is_compliant r, sr_cloud_provider = ''AWS'',
      sr_account_id = acc_account_id account, sr_region = acc_region account,
      sr_timestamp = now, sr_first_detected = Some now, sr_status = ''NEW''\<rparr>"

definition scheduled_ScanHistory ::
  "string \<Rightarrow> account \<Rightarrow> timestamp \<Rightarrow> timestamp \<Rightarrow> result list \<Rightarrow> scan_history" where
  "scheduled_ScanHistory scan_id account start_time now results =
     (let total_resources = int (length results);
          violations = filter (\<lambda>r. \<not> r_is_compliant r) results;
          violation_count = int (length violations);
          compliant_count = total_resources - violation_count;
          compliance_score =
            (if total_resources > 0
             then py_int (py_mul (py_truediv compliant_count total_resources) 100) else 100);
          severity_counts = count_severities violations
      in \<lparr>sh_scan_id = scan_id, sh_account_id = acc_account_id account,
          sh_region = acc_region account, sh_timestamp = now,
          sh_total_resources = total_resources, sh_compliant_count = compliant_count,
          sh_violation_count = violation_count, sh_compliance_score = compliance_score,
          sh_critical_count = severity_counts ''CRITICAL'',
          sh_high_count = severity_counts ''HIGH'',
          sh_medium_count = severity_counts ''MEDIUM'',
          sh_low_count = severity_counts ''LOW'',
          sh_scan_duration = now - start_time, sh_triggered_by = ''scheduled''\<rparr>)"

text \<open>
  The loop over the targets inside the \<open>try\<close> of \<open>scheduled_scan_job\<close>. \<open>uuid4 k\<close> is the
  \<open>k\<close>-th identifier drawn in this firing. An exception of the scan or of the commit
  leaves the loop for the handler, which rolls the session back; no later target is
  reached.
\<close>

fun scan_accounts ::
  "scanner \<Rightarrow> (nat \<Rightarrow> string) \<Rightarrow> nat \<Rightarrow> account list \<Rightarrow> session \<Rightarrow> timestamp
     \<Rightarrow> session \<times> timestamp" where
  "scan_accounts scan uuid4 k [] db clock = (db, clock)"
| "scan_accounts scan uuid4 k (account # rest) db clock =
     (case scan account clock of
        Inl e \<Rightarrow> (db_rollback db, clock)
      | Inr (results, now) \<Rightarrow>
          let scan_id = uuid4 k;
              db1 = fold (\<lambda>r s. db_add s (scheduled_ScanResult scan_id account now r)) results db;
              db2 = db_add_history db1 (scheduled_ScanHistory scan_id account clock now results)
          in case db_commit db2 of
               Inl e \<Rightarrow> (db_rollback db2, now)
             | Inr db3 \<Rightarrow> scan_accounts scan uuid4 (Suc k) rest db3 now)"

text \<open>
  One firing of the timer: the database and the clock after it. Closing the session
  drops whatever is still pending.
\<close>

definition scheduled_scan_job ::
  "scanner \<Rightarrow> (nat \<Rightarrow> string) \<Rightarrow> monitoring_config option \<Rightarrow> database \<Rightarrow> timestamp
     \<Rightarrow> database \<times> timestamp" where
  "scheduled_scan_job scan uuid4 config_file d clock =
     (let config = load_config config_file in
      if \<not> enabled config then (d, clock)
      else if accounts config = [] then (d, clock)
      else case scan_accounts scan uuid4 0 (accounts config) (SessionLocal d) clock of
             (db, clock') \<Rightarrow> (committed db, clock'))"

text \<open>
  The state \<open>configure_monitoring\<close> works on: the configuration file and the jobs of the
  background scheduler, each with its id and the hours of its interval trigger.
\<close>

record scheduler_state =
  config_file :: "monitoring_config option"
  jobs :: "(string \<times> int) list"

text \<open>
  \<open>trigger_ok h\<close> says whether the library accepts \<open>IntervalTrigger(hours=h)\<close> and the
  job; the library is not part of the repository. \<open>writable\<close> says whether the
  configuration file can be written. The function returns the configuration, or the
  exception raised, and the state it leaves.
\<close>

definition configure_monitoring ::
  "(int \<Rightarrow> bool) \<Rightarrow> bool \<Rightarrow> bool \<Rightarrow> int \<Rightarrow> account list option \<Rightarrow> scheduler_state
     \<Rightarrow> (py_error + monitoring_config) \<times> scheduler_state" where
  "configure_monitoring trigger_ok writable enabled_arg interval_arg accounts_arg st =
     (let config0 = load_config (config_file st);
          config1 = config0\<lparr>enabled := enabled_arg, interval_hours := interval_arg\<rparr>;
          config = (case accounts_arg of None \<Rightarrow> config1 | Some a \<Rightarrow> config1\<lparr>accounts := a\<rparr>);
          st1 = st\<lparr>jobs := []\<rparr>
      in if enabled_arg then
           if trigger_ok interval_arg then
             (Inr config,
              st1\<lparr>jobs := [(''compliance_scan'', interval_arg)],
                  config_file := fst (save_config writable config (config_file st))\<rparr>)
           else (Inl TriggerError, st1)
         else (Inr config, st1\<lparr>config_file := fst (save_config writable config (config_file st))\<rparr>))"

definition stop_monitoring :: "bool \<Rightarrow> scheduler_state \<Rightarrow> scheduler_state" where
  "stop_monitoring writable st =
     (let config = (load_config (config_file st))\<lparr>enabled := False\<rparr>
      in st\<lparr>config_file := fst (save_config writable config (config_file st)), jobs := []\<rparr>)"

definition start_monitoring ::
  "(int \<Rightarrow> bool) \<Rightarrow> bool \<Rightarrow> scheduler_state \<Rightarrow> (py_error + monitoring_config) \<times> scheduler_state" where
  "start_monitoring trigger_ok writable st =
     (let config = load_config (config_file st)
      in configure_monitoring trigger_ok writable True (interval_hours config)
           (Some (accounts config)) st)"

section \<open>The coverage score: app.py, scheduler.py and reports/report\_generator.py\<close>

text \<open>
  The coverage score of the glossary, \<open>compliant_count / total_resources * 100\<close>, in
  float arithmetic.
\<close>

definition coverage_score :: "int \<Rightarrow> int \<Rightarrow> rat" where
  "coverage_score compliant_count total_resources =
     py_mul (py_truediv compliant_count total_resources) 100"

text \<open>
  \<open>get_dashboard\<close> of app.py: the score and the summary of its answer; the list that
  repeats every row is left out.
\<close>

record dashboard =
  d_compliance_score :: rat
  d_critical :: nat
  d_high :: nat
  d_medium :: nat
  d_low :: nat
  d_total_resources_scanned :: nat

definition get_dashboard :: "database \<Rightarrow> dashboard" where
  "get_dashboard d =
     (let violations = scan_results d;
          total_resources = length violations;
          compliant_resources = length (filter sr_is_compliant violations);
          compliance_score =
            (if total_resources > 0
             then py_mul (py_truediv (int compliant_resources) (int total_resources)) 100
             else 100)
      in \<lparr>d_compliance_score = py_round2 compliance_score,
          d_critical = length (filter (\<lambda>v. sr_severity v = ''CRITICAL'') violations),
          d_high = length (filter (\<lambda>v. sr_severity v = ''HIGH'') violations),
          d_medium = length (filter (\<lambda>v. sr_severity v = ''MEDIUM'') violations),
          d_low = length (filter (\<lambda>v. sr_severity v = ''LOW'') violations),
          d_total_resources_scanned = total_resources\<rparr>)"

text \<open>
  The executive summary of \<open>generate_pdf\<close>, from the rows its query selected: the values
  behind the entries Compliance Score, Total Resources Scanned, Compliant Resources and
  Violations Found, before they are formatted. Rendering the document is not modelled.
\<close>

record report_summary =
  rp_compliance_score :: rat
  rp_total :: int
  rp_compliant :: int
  rp_violations :: int

definition generate_pdf :: "scan_result list \<Rightarrow> py_error + report_summary" where
  "generate_pdf results =
     (if results = [] then Inl (ValueError ''No scan results found'')
      else
        let total = int (length results);
            violations = filter (\<lambda>r. \<not> sr_is_compliant r) results;
            compliant = total - int (length violations);
            compliance_score =
              (if total > 0 then py_mul (py_truediv compliant total) 100 else 0)
        in Inr \<lparr>rp_compliance_score = compliance_score, rp_total = total,
                rp_compliant = compliant, rp_violations = int (length violations)\<rparr>)"

text \<open>
  What the report would show if its summary used the severity weighted score: that
  score of the violations among the report's rows.
\<close>

definition severity_weighted_of_rows :: "scan_result list \<Rightarrow> py_error + rat" where
  "severity_weighted_of_rows results =
     get_compliance_score
       (map (\<lambda>r. [(''severity'', sr_severity r)]) (filter (\<lambda>r. \<not> sr_is_compliant r) results))"

section \<open>Example inputs\<close>

text \<open>
  A database that holds one finding of an earlier scan of account 123 in us-east-1; a
  provider none of whose listing calls answers; and a provider with a single resource,
  the unencrypted database instance of that finding.
\<close>

definition old_finding :: scan_result where
  "old_finding =
     \<lparr>sr_scan_id = None, sr_resource_id = ''db-1'', sr_resource_type = ''RDS Instance'',
      sr_violation_name = ''Unencrypted RDS Instance'', sr_severity = ''CRITICAL'',
      sr_compliance_framework = ''NIST SP 800-53 SC-28'', sr_is_compliant = False,
      sr_cloud_provider = ''AWS'', sr_account_id = Some ''123'',
      sr_region = Some ''us-east-1'', sr_timestamp = 50, sr_first_detected = None,
      sr_status = ''NEW''\<rparr>"

definition example_database :: database where
  "example_database = \<lparr>scan_results = [old_finding], scan_history_rows = []\<rparr>"

definition unreachable_provider :: aws_env where
  "unreachable_provider =
     \<lparr>list_buckets = Inl OtherError,
      get_bucket_encryption = (\<lambda>bucket. Inl OtherError),
      list_users_pages = [Inl OtherError],
      list_attached_user_policies = (\<lambda>username. Inl OtherError),
      describe_security_groups = Inl OtherError,
      describe_trails = Inl OtherError,
      get_trail_status = (\<lambda>arn. Inl OtherError),
      describe_db_instances = Inl OtherError\<rparr>"

definition example_provider :: aws_env where
  "example_provider =
     \<lparr>list_buckets = Inr [],
      get_bucket_encryption = (\<lambda>bucket. Inr True),
      list_users_pages = [Inr []],
      list_attached_user_policies = (\<lambda>username. Inr []),
      describe_security_groups = Inr [],
      describe_trails = Inr [\<lparr>TrailName = ''main'', TrailARN = ''arn:main''\<rparr>],
      get_trail_status = (\<lambda>arn. Inr True),
      describe_db_instances =
        Inr [\<lparr>DBInstanceIdentifier = ''db-1'', StorageEncrypted = False,
              PubliclyAccessible = False\<rparr>]\<rparr>"

text \<open>
  Two monitored targets; three results of a scan, one of them a violation; a scanner that
  fails on the first target and takes five seconds on any other; one that succeeds on
  every target; and the identifiers drawn in a firing.
\<close>

definition first_target :: account where
  "first_target = \<lparr>acc_account_id = Some ''111'', acc_region = Some ''us-east-1'',
     acc_access_key = None, acc_secret_key = None\<rparr>"

definition second_target :: account where
  "second_target = \<lparr>acc_account_id = Some ''222'', acc_region = Some ''eu-west-1'',
     acc_access_key = None, acc_secret_key = None\<rparr>"

definition example_results :: "result list" where
  "example_results =
     [\<lparr>r_resource_id = ''logs'', r_resource_type = ''S3 Bucket'',
       r_violation_name = ''Unencrypted S3 Bucket'', r_severity = ''HIGH'',
       r_compliance_framework = ''NIST SP 800-53 SC-28'', r_is_compliant = False\<rparr>,
      \<lparr>r_resource_id = ''assets'', r_resource_type = ''S3 Bucket'',
       r_violation_name = ''Unencrypted S3 Bucket'', r_severity = ''HIGH'',
       r_compliance_framework = ''NIST SP 800-53 SC-28'', r_is_compliant = True\<rparr>,
      \<lparr>r_resource_id = ''backup'', r_resource_type = ''S3 Bucket'',
       r_violation_name = ''Unencrypted S3 Bucket'', r_severity = ''HIGH'',
       r_compliance_framework = ''NIST SP 800-53 SC-28'', r_is_compliant = True\<rparr>]"

definition first_target_fails :: scanner where
  "first_target_fails account start =
     (if account = first_target then Inl (ScanError ''provider unreachable'')
      else Inr (example_results, start + 5))"

definition every_target_scans :: scanner where
  "every_target_scans account start = Inr (example_results, start + 5)"

definition example_uuid4 :: "nat \<Rightarrow> string" where
  "example_uuid4 k = ''scan-'' @ str_nat k"

definition later_uuid4 :: "nat \<Rightarrow> string" where
  "later_uuid4 k = ''rescan-'' @ str_nat k"

definition empty_database :: database where
  "empty_database = \<lparr>scan_results = [], scan_history_rows = []\<rparr>"

text \<open>
  Rows for a report: the finding above at severity HIGH, and two compliant rows.
\<close>

definition high_finding :: scan_result where
  "high_finding = old_finding\<lparr>sr_severity := ''HIGH''\<rparr>"

definition report_rows :: "scan_result list" where
  "report_rows =
     [high_finding,
      old_finding\<lparr>sr_resource_id := ''db-2'', sr_is_compliant := True\<rparr>,
      old_finding\<lparr>sr_resource_id := ''db-3'', sr_is_compliant := True\<rparr>]"

section \<open>Properties of the float model\<close>

lemma rne_error: "\<bar>of_int (rne x) - x\<bar> \<le> 1/2"
  unfolding rne_def Let_def by (auto simp: abs_if) linarith+

lemma binade_le:
  assumes "0 < x"
  shows "2 powi (binade x) \<le> x"
proof -
  obtain a b where ab: "quotient_of x = (a, b)" by (cases "quotient_of x")
  have b: "0 < b" using ab by (rule quotient_of_denom_pos)
  have x: "x = of_int a / of_int b" using ab by (rule quotient_of_div)
  have a: "0 < a" using assms b x by (simp add: zero_less_divide_iff)
  have k1: "2 ^ nat (bitlen a - 1) \<le> a" using bitlen_bounds[OF a] by simp
  have k2: "b < 2 ^ nat (bitlen b)" using bitlen_bounds[OF b] by simp
  have ba: "1 \<le> bitlen a" using a by (simp add: bitlen_alt_def)
  have bb: "1 \<le> bitlen b" using b by (simp add: bitlen_alt_def)
  have "(2::rat) powi (bitlen a - bitlen b - 1) = 2 powi (bitlen a - 1) / 2 powi (bitlen b)"
    by (simp add: power_int_diff)
  also have "\<dots> = 2 ^ nat (bitlen a - 1) / 2 ^ nat (bitlen b)"
    using ba bb by (simp add: power_int_def)
  also have "\<dots> \<le> of_int a / of_int b"
  proof -
    have "(2::rat) ^ nat (bitlen a - 1) \<le> of_int a"
      using k1 by (metis of_int_le_iff of_int_numeral of_int_power)
    moreover have "of_int b \<le> (2::rat) ^ nat (bitlen b)"
      using k2 by (metis less_imp_le of_int_le_iff of_int_numeral of_int_power)
    moreover have "0 < (of_int b :: rat)" using b by simp
    moreover have "0 \<le> (of_int a :: rat)" using a by simp
    ultimately show ?thesis by (intro frac_le)
  qed
  finally have low: "(2::rat) powi (bitlen a - bitlen b - 1) \<le> x" using x by simp
  show ?thesis using low ab by (simp add: binade_def Let_def)
qed

lemma binade_gt:
  assumes "0 < x"
  shows "x < 2 powi (binade x + 1)"
proof -
  obtain a b where ab: "quotient_of x = (a, b)" by (cases "quotient_of x")
  have b: "0 < b" using ab by (rule quotient_of_denom_pos)
  have x: "x = of_int a / of_int b" using ab by (rule quotient_of_div)
  have a: "0 < a" using assms b x by (simp add: zero_less_divide_iff)
  have k1: "a < 2 ^ nat (bitlen a)" using bitlen_bounds[OF a] by simp
  have k2: "2 ^ nat (bitlen b - 1) \<le> b" using bitlen_bounds[OF b] by simp
  have ba: "1 \<le> bitlen a" using a by (simp add: bitlen_alt_def)
  have bb: "1 \<le> bitlen b" using b by (simp add: bitlen_alt_def)
  have "of_int a / of_int b < (2::rat) ^ nat (bitlen a) / 2 ^ nat (bitlen b - 1)"
  proof -
    have "of_int a < (2::rat) ^ nat (bitlen a)"
      using k1 by (metis of_int_less_iff of_int_numeral of_int_power)
    moreover have "(2::rat) ^ nat (bitlen b - 1) \<le> of_int b"
      using k2 by (metis of_int_le_iff of_int_numeral of_int_power)
    moreover have "0 \<le> (of_int a :: rat)" using a by simp
    moreover have "0 < (2::rat) ^ nat (bitlen b - 1)" by simp
    ultimately show ?thesis by (intro frac_less)
  qed
  also have "\<dots> = 2 powi (bitlen a) / 2 powi (bitlen b - 1)"
    using ba bb by (simp add: power_int_def)
  also have "\<dots> = (2::rat) powi (bitlen a - (bitlen b - 1))"
    by (rule power_int_diff[symmetric]) simp
  also have "\<dots> = (2::rat) powi (bitlen a - bitlen b + 1)"
    by (simp add: algebra_simps)
  finally have up: "x < (2::rat) powi (bitlen a - bitlen b + 1)" using x by simp
  show ?thesis
  proof (cases "(2::rat) powi (bitlen a - bitlen b) \<le> x")
    case True
    then show ?thesis using up ab by (simp add: binade_def Let_def)
  next
    case False
    then show ?thesis using ab by (simp add: binade_def Let_def)
  qed
qed

lemma fl_error: "\<bar>fl x - x\<bar> \<le> \<bar>x\<bar> / 2 ^ 53"
proof (cases "x = 0")
  case True
  then show ?thesis by (simp add: fl_def)
next
  case False
  define u :: rat where "u = 2 powi (binade \<bar>x\<bar> - 52)"
  have u: "0 < u" by (simp add: u_def)
  have flx: "fl x = of_int (rne (x / u)) * u" using False by (simp add: fl_def u_def Let_def)
  have "fl x - x = (of_int (rne (x / u)) - x / u) * u"
    using u by (simp add: flx field_simps)
  then have "\<bar>fl x - x\<bar> = \<bar>of_int (rne (x / u)) - x / u\<bar> * u"
    using u by (simp add: abs_mult)
  also have "\<dots> \<le> (1/2) * u" using rne_error[of "x / u"] u by (intro mult_right_mono) auto
  also have "\<dots> = 2 powi (binade \<bar>x\<bar>) / 2 ^ 53"
    by (simp add: u_def power_int_diff)
  also have "\<dots> \<le> \<bar>x\<bar> / 2 ^ 53"
    using binade_le[of "\<bar>x\<bar>"] False by (intro divide_right_mono) auto
  finally show ?thesis .
qed

lemma fl_ge: assumes "0 \<le> x" shows "x * (99/100) \<le> fl x"
proof -
  have "\<bar>x\<bar> / 2 ^ 53 \<le> \<bar>x\<bar> / 100" by (intro divide_left_mono) auto
  then show ?thesis using fl_error[of x] assms by (simp add: abs_if split: if_splits)
qed

lemma fl_le: assumes "0 \<le> x" shows "fl x \<le> x * (101/100)"
proof -
  have "\<bar>x\<bar> / 2 ^ 53 \<le> \<bar>x\<bar> / 100" by (intro divide_left_mono) auto
  then show ?thesis using fl_error[of x] assms by (simp add: abs_if split: if_splits)
qed

lemma fl_nonpos: assumes "x \<le> 0" shows "fl x \<le> 0"
proof -
  have "\<bar>x\<bar> / 2 ^ 53 \<le> \<bar>x\<bar>" by (simp add: divide_le_eq)
  then show ?thesis using fl_error[of x] assms by (simp add: abs_if split: if_splits)
qed

lemma weighted_score_below_100:
  assumes n: "0 < n" and t: "2 * n \<le> t"
  shows "py_round2 (max 0 (py_sub 100 (py_mul (py_truediv t (n * 10)) 100))) < 100"
proof -
  define q :: rat where "q = of_int t / of_int (n * 10)"
  define a where "a = fl q"
  define b where "b = fl (a * 100)"
  define c where "c = fl (100 - b)"
  define m where "m = max 0 c"
  define y :: rat where "y = of_int (rne (m * 100)) / 100"
  have "of_int (2 * n) \<le> (of_int t :: rat)" using t by (simp only: of_int_le_iff)
  then have q: "1/5 \<le> q" using n by (simp add: q_def le_divide_eq)
  have a: "198/1000 \<le> a" using fl_ge[of q] q by (simp add: a_def)
  have b: "19 \<le> b" using fl_ge[of "a * 100"] a by (simp add: b_def)
  have c: "c \<le> 82"
  proof (cases "0 \<le> 100 - b")
    case True
    then show ?thesis using fl_le[of "100 - b"] b by (simp add: c_def)
  next
    case False
    then show ?thesis using fl_nonpos[of "100 - b"] by (simp add: c_def)
  qed
  have m: "0 \<le> m" "m \<le> 82" using c by (simp_all add: m_def)
  have y: "0 \<le> y" "y \<le> 83"
  proof -
    have r: "\<bar>of_int (rne (m * 100)) - m * 100\<bar> \<le> 1/2" by (rule rne_error)
    have lo: "- (1/2) \<le> (of_int (rne (m * 100)) :: rat)" using r m by linarith
    have hi: "(of_int (rne (m * 100)) :: rat) \<le> 8300" using r m by linarith
    have "0 \<le> rne (m * 100)" using lo by linarith
    then show "0 \<le> y" by (simp add: y_def)
    show "y \<le> 83" using hi by (simp add: y_def)
  qed
  have "fl y < 100" using fl_le[of y] y by simp
  then show ?thesis
    by (simp add: py_round2_def py_sub_def py_mul_def py_truediv_def y_def m_def c_def b_def a_def q_def)
qed

lemma rne_bounds: "\<lfloor>x\<rfloor> \<le> rne x" "rne x \<le> \<lfloor>x\<rfloor> + 1"
  by (simp_all add: rne_def Let_def)

lemma rne_of_int: "rne (of_int k) = k"
  by (simp add: rne_def Let_def)

lemma rne_zero: "rne 0 = 0"
  by (simp add: rne_def Let_def)

lemma rne_mono:
  assumes "x \<le> y"
  shows "rne x \<le> rne y"
proof (cases "\<lfloor>x\<rfloor> = \<lfloor>y\<rfloor>")
  case True
  then show ?thesis using assms by (auto simp: rne_def Let_def)
next
  case False
  then have "\<lfloor>x\<rfloor> < \<lfloor>y\<rfloor>" using floor_mono[OF assms] by linarith
  then have "rne x \<le> \<lfloor>y\<rfloor>" using rne_bounds(2)[of x] by linarith
  then show ?thesis using rne_bounds(1)[of y] by linarith
qed

lemma binade_mono:
  assumes "0 < x" and "x \<le> y"
  shows "binade x \<le> binade y"
proof -
  have "2 powi (binade x) \<le> x" using binade_le[OF assms(1)] .
  also have "x \<le> y" by fact
  also have "y < 2 powi (binade y + 1)" using binade_gt[of y] assms by simp
  finally have lt: "(2::rat) powi (binade x) < 2 powi (binade y + 1)" .
  have "\<not> binade y + 1 \<le> binade x"
  proof
    assume "binade y + 1 \<le> binade x"
    then have "(2::rat) powi (binade y + 1) \<le> 2 powi (binade x)"
      by (intro power_int_increasing) auto
    then show False using lt by linarith
  qed
  then show ?thesis by simp
qed

lemma fl_pos_eq:
  assumes "0 < x"
  shows "fl x = of_int (rne (x / 2 powi (binade x - 52))) * 2 powi (binade x - 52)"
  using assms by (simp add: fl_def Let_def)

lemma fl_binade_bounds:
  assumes "0 < x"
  shows "2 powi (binade x) \<le> fl x" and "fl x \<le> 2 powi (binade x + 1)"
proof -
  define u :: rat where "u = 2 powi (binade x - 52)"
  have u: "0 < u" by (simp add: u_def)
  have lo: "2 powi (binade x) = (2::rat) ^ 52 * u"
    by (simp add: u_def power_int_diff)
  have hi: "2 powi (binade x + 1) = (2::rat) ^ 53 * u"
    by (simp add: u_def power_int_diff power_int_add)
  have "(2::rat) ^ 52 \<le> x / u" using binade_le[OF assms] u by (simp add: lo le_divide_eq)
  then have "rne (of_int (2 ^ 52)) \<le> rne (x / u)" by (intro rne_mono) simp
  then have a: "(2::rat) ^ 52 \<le> of_int (rne (x / u))"
    by (metis of_int_le_iff of_int_numeral of_int_power rne_of_int)
  have "x / u \<le> (2::rat) ^ 53" using binade_gt[OF assms] u by (simp add: hi divide_le_eq)
  then have "rne (x / u) \<le> rne (of_int (2 ^ 53))" by (intro rne_mono) simp
  then have b: "of_int (rne (x / u)) \<le> (2::rat) ^ 53"
    by (metis of_int_le_iff of_int_numeral of_int_power rne_of_int)
  show "2 powi (binade x) \<le> fl x"
    unfolding lo fl_pos_eq[OF assms] u_def[symmetric] using a u by (intro mult_right_mono) auto
  show "fl x \<le> 2 powi (binade x + 1)"
    unfolding hi fl_pos_eq[OF assms] u_def[symmetric] using b u by (intro mult_right_mono) auto
qed

lemma fl_mono_pos:
  assumes "0 < x" and "x \<le> y"
  shows "fl x \<le> fl y"
proof -
  have y: "0 < y" using assms by simp
  have le: "binade x \<le> binade y" by (rule binade_mono[OF assms])
  show ?thesis
  proof (cases "binade x = binade y")
    case True
    define u :: rat where "u = 2 powi (binade x - 52)"
    have u: "0 < u" by (simp add: u_def)
    have "x / u \<le> y / u" using assms u by (simp add: divide_right_mono)
    then have "(of_int (rne (x / u)) :: rat) \<le> of_int (rne (y / u))"
      using rne_mono by (simp only: of_int_le_iff)
    then have "of_int (rne (x / u)) * u \<le> of_int (rne (y / u)) * u"
      using u by (intro mult_right_mono) auto
    then show ?thesis
      unfolding fl_pos_eq[OF assms(1)] fl_pos_eq[OF y] True[symmetric] u_def[symmetric] .
  next
    case False
    then have "binade x + 1 \<le> binade y" using le by simp
    then have "(2::rat) powi (binade x + 1) \<le> 2 powi (binade y)"
      by (intro power_int_increasing) auto
    then show ?thesis
      using fl_binade_bounds(2)[OF assms(1)] fl_binade_bounds(1)[OF y] by linarith
  qed
qed

lemma fl_mono_nonneg:
  assumes "0 \<le> x" and "x \<le> y"
  shows "fl x \<le> fl y"
proof (cases "x = 0")
  case True
  then show ?thesis using fl_ge[of y] assms by (simp add: fl_def)
next
  case False
  then show ?thesis using fl_mono_pos[of x y] assms by simp
qed

lemma weighted_score_antimono:
  assumes n: "0 < n" and t: "0 < t" and tt: "t \<le> t'"
  shows "py_round2 (max 0 (py_sub 100 (py_mul (py_truediv t' (n * 10)) 100)))
       \<le> py_round2 (max 0 (py_sub 100 (py_mul (py_truediv t (n * 10)) 100)))"
proof -
  define q :: rat where "q = of_int t / of_int (n * 10)"
  define q' :: rat where "q' = of_int t' / of_int (n * 10)"
  have q: "0 < q" "q \<le> q'" using n t tt by (simp_all add: q_def q'_def divide_right_mono)
  have a: "fl q \<le> fl q'" by (rule fl_mono_pos[OF q])
  have a0: "0 < fl q" using fl_ge[of q] q by simp
  have b: "fl (fl q * 100) \<le> fl (fl q' * 100)" using a a0 by (intro fl_mono_pos) auto
  have c: "max 0 (fl (100 - fl (fl q' * 100))) \<le> max 0 (fl (100 - fl (fl q * 100)))"
  proof (cases "0 < 100 - fl (fl q' * 100)")
    case True
    then have "fl (100 - fl (fl q' * 100)) \<le> fl (100 - fl (fl q * 100))"
      using b by (intro fl_mono_pos) auto
    then show ?thesis by simp
  next
    case False
    then have "fl (100 - fl (fl q' * 100)) \<le> 0" by (intro fl_nonpos) simp
    then show ?thesis by simp
  qed
  define m where "m = max 0 (fl (100 - fl (fl q * 100)))"
  define m' where "m' = max 0 (fl (100 - fl (fl q' * 100)))"
  have m: "0 \<le> m'" "m' \<le> m" using c by (simp_all add: m_def m'_def)
  have "rne 0 \<le> rne (m' * 100)" using m by (intro rne_mono) simp
  then have r0: "0 \<le> rne (m' * 100)" by (simp add: rne_zero)
  have r: "rne (m' * 100) \<le> rne (m * 100)" using m by (intro rne_mono) simp
  have "fl (of_int (rne (m' * 100)) / 100) \<le> fl (of_int (rne (m * 100)) / 100)"
    using r0 r by (intro fl_mono_nonneg) (simp_all add: divide_right_mono)
  then show ?thesis
    by (simp add: py_round2_def py_sub_def py_mul_def py_truediv_def q_def q'_def m_def m'_def)
qed

lemma score_close_to_exact:
  assumes n: "0 < n" and lo: "2 * n \<le> t" and hi: "t \<le> 10 * n"
  shows "\<bar>py_round2 (max 0 (py_sub 100 (py_mul (py_truediv t (n * 10)) 100)))
          - (100 - 10 * of_int t / of_int n)\<bar> \<le> 51 / 10000"
proof -
  define eps :: rat where "eps = 1 / 2 ^ 53"
  define q :: rat where "q = of_int t / of_int (n * 10)"
  define a where "a = fl q"
  define b where "b = fl (a * 100)"
  define c where "c = fl (100 - b)"
  define m where "m = max 0 c"
  define y :: rat where "y = of_int (rne (m * 100)) / 100"
  define E :: rat where "E = 100 - 100 * q"
  have eps: "0 < eps" "eps \<le> 1 / 10 ^ 15" by (simp_all add: eps_def)
  have "of_int (2 * n) \<le> (of_int t :: rat)" using lo by (simp only: of_int_le_iff)
  moreover have "(of_int t :: rat) \<le> of_int (10 * n)" using hi by (simp only: of_int_le_iff)
  ultimately have q: "1/5 \<le> q" "q \<le> 1" using n by (simp_all add: q_def le_divide_eq divide_le_eq)
  have E: "0 \<le> E" "E \<le> 80" using q by (simp_all add: E_def)
  have Eq: "E = 100 - 10 * of_int t / of_int n" using n by (simp add: E_def q_def)
  have ea: "\<bar>a - q\<bar> \<le> eps"
  proof -
    have "\<bar>a - q\<bar> \<le> \<bar>q\<bar> * eps" using fl_error[of q] by (simp add: a_def eps_def)
    also have "\<dots> \<le> 1 * eps" using q eps by (intro mult_right_mono) auto
    finally show ?thesis by simp
  qed
  have a: "0 \<le> a" "a \<le> 2" using ea q eps by (auto simp: abs_le_iff)
  have eb: "\<bar>b - a * 100\<bar> \<le> 200 * eps"
  proof -
    have "\<bar>b - a * 100\<bar> \<le> \<bar>a * 100\<bar> * eps" using fl_error[of "a * 100"] by (simp add: b_def eps_def)
    also have "\<dots> \<le> 200 * eps" using a eps by (intro mult_right_mono) auto
    finally show ?thesis .
  qed
  have b: "\<bar>b - 100 * q\<bar> \<le> 300 * eps" using ea eb by (auto simp: abs_le_iff)
  have d: "\<bar>100 - b\<bar> \<le> 81" using b q eps by (auto simp: abs_le_iff)
  have ec: "\<bar>c - (100 - b)\<bar> \<le> 81 * eps"
  proof -
    have "\<bar>c - (100 - b)\<bar> \<le> \<bar>100 - b\<bar> * eps" using fl_error[of "100 - b"] by (simp add: c_def eps_def)
    also have "\<dots> \<le> 81 * eps" using d eps by (intro mult_right_mono) auto
    finally show ?thesis .
  qed
  have cE: "\<bar>c - E\<bar> \<le> 381 * eps" using ec b by (auto simp: abs_le_iff E_def)
  have mE: "\<bar>m - E\<bar> \<le> 381 * eps" using cE E eps by (auto simp: m_def max_def abs_le_iff)
  have m: "0 \<le> m" "m \<le> 81" using mE E eps by (auto simp: m_def abs_le_iff)
  have ey: "\<bar>y - m\<bar> \<le> 1 / 200"
  proof -
    have "\<bar>of_int (rne (m * 100)) - m * 100\<bar> \<le> 1/2" by (rule rne_error)
    then show ?thesis by (auto simp: y_def abs_le_iff field_simps)
  qed
  have y: "\<bar>y\<bar> \<le> 82" using ey m by linarith
  have ef: "\<bar>fl y - y\<bar> \<le> 82 * eps"
  proof -
    have "\<bar>fl y - y\<bar> \<le> \<bar>y\<bar> * eps" using fl_error[of y] by (simp add: eps_def)
    also have "\<dots> \<le> 82 * eps" using y eps by (intro mult_right_mono) auto
    finally show ?thesis .
  qed
  have "\<bar>fl y - E\<bar> \<le> 1 / 200 + 463 * eps" using ef ey mE by linarith
  also have "\<dots> \<le> 51 / 10000" using eps by simp
  finally have "\<bar>fl y - E\<bar> \<le> 51 / 10000" .
  then show ?thesis
    unfolding Eq[symmetric]
    by (simp add: py_round2_def py_sub_def py_mul_def py_truediv_def y_def m_def c_def b_def a_def q_def)
qed

section \<open>The severity weighted score\<close>

lemma map_of_SEVERITY_LEVELS:
  "map_of SEVERITY_LEVELS s =
     (if s = ''CRITICAL'' then Some \<lparr>score = 10,
        description = ''Immediate action required - severe security risk''\<rparr>
      else if s = ''HIGH'' then Some \<lparr>score = 7,
        description = ''High priority - significant security concern''\<rparr>
      else if s = ''MEDIUM'' then Some \<lparr>score = 4,
        description = ''Medium priority - moderate security issue''\<rparr>
      else if s = ''LOW'' then Some \<lparr>score = 2,
        description = ''Low priority - minor security consideration''\<rparr>
      else None)"
  by (simp add: SEVERITY_LEVELS_def)

lemma sum_scores_find:
  "sum_scores vs =
     (case find unknown_severity vs of
        None \<Rightarrow> Inr (sum_list (map spec_weight vs))
      | Some v \<Rightarrow> Inl (KeyError (dict_get v ''severity'' ''LOW'')))"
proof (induction vs)
  case Nil
  then show ?case by simp
next
  case (Cons v vs)
  show ?case
  proof (cases "unknown_severity v")
    case True
    then show ?thesis
      by (auto simp: unknown_severity_def dict_get_def map_of_SEVERITY_LEVELS
          split: option.splits)
  next
    case False
    then have "map_of SEVERITY_LEVELS (dict_get v ''severity'' ''LOW'')
        = Some (the (map_of SEVERITY_LEVELS (dict_get v ''severity'' ''LOW'')))
      \<and> score (the (map_of SEVERITY_LEVELS (dict_get v ''severity'' ''LOW''))) = spec_weight v"
      by (auto simp: unknown_severity_def dict_get_def map_of_SEVERITY_LEVELS spec_weight_def
          split: option.splits)
    then show ?thesis using False Cons.IH
      by (auto split: option.splits sum.splits)
  qed
qed

lemma sum_scores_bounds:
  "sum_scores vs = Inr t \<Longrightarrow> 2 * int (length vs) \<le> t"
proof (induction vs arbitrary: t)
  case Nil
  then show ?case by simp
next
  case (Cons v vs)
  then show ?case
    by (auto simp: map_of_SEVERITY_LEVELS split: option.splits sum.splits if_splits)
qed

lemma sum_scores_upper:
  "sum_scores vs = Inr t \<Longrightarrow> t \<le> 10 * int (length vs)"
proof (induction vs arbitrary: t)
  case Nil
  then show ?case by simp
next
  case (Cons v vs)
  then show ?case
    by (auto simp: map_of_SEVERITY_LEVELS split: option.splits sum.splits if_splits)
qed

text \<open>
  Claim C1, as amended. \<open>get_compliance_score\<close> returns 100 on the empty list and
  otherwise the formula \<open>max(0, 100 - (sum of weights / (count * 10)) * 100)\<close> rounded to
  two decimal places, with weights 10, 7, 4 and 2 for CRITICAL, HIGH, MEDIUM and LOW and a
  violation without a severity entry weighing as LOW, provided that no violation carries
  a severity outside the four names; when one does, the call raises \<open>KeyError\<close> for the
  first such severity and returns no score.
\<close>

theorem get_compliance_score_formula:
  "get_compliance_score vs =
     (case find unknown_severity vs of
        None \<Rightarrow> Inr (spec_score vs)
      | Some v \<Rightarrow> Inl (KeyError (dict_get v ''severity'' ''LOW'')))"
proof (cases vs)
  case Nil
  then show ?thesis by (simp add: get_compliance_score_def spec_score_def)
next
  case (Cons v rest)
  then show ?thesis
    by (simp add: get_compliance_score_def spec_score_def sum_scores_find Let_def
        split: option.splits)
qed

theorem get_compliance_score_formula_witness:
  "get_compliance_score [[(''severity'', ''CRITICAL'')], [(''resource_id'', ''db-1'')]] = Inr 40"
  using get_compliance_score_formula
    [of "[[(''severity'', ''CRITICAL'')], [(''resource_id'', ''db-1'')]]"]
  by code_simp

text \<open>
  Claim C1 as stated lets an unknown severity weigh as LOW, which would score a single
  violation of severity \<open>INFO\<close> at 80. The code raises \<open>KeyError\<close> there.
\<close>

theorem unknown_severity_counterexample:
  "get_compliance_score [[(''severity'', ''INFO'')]] = Inl (KeyError ''INFO'')
   \<and> spec_score [[(''severity'', ''INFO'')]] = 80"
  by code_simp

text \<open>
  Claim C9. The severity weighted score is 100 exactly for the empty list, and every
  score returned for a non-empty list is strictly below 100: every violation weighs at
  least 2 out of 10, so a non-empty list scores at most 80 before rounding, and the
  rounding errors of the float operations stay far below the gap. A list on which the
  call raises returns no score at all.
\<close>

theorem score_100_iff_empty:
  "(get_compliance_score vs = Inr 100 \<longleftrightarrow> vs = [])
   \<and> (vs \<noteq> [] \<longrightarrow> (\<forall>s. get_compliance_score vs = Inr s \<longrightarrow> s < 100))"
proof (cases "vs = []")
  case True
  then show ?thesis by (simp add: get_compliance_score_def)
next
  case False
  show ?thesis
  proof (cases "sum_scores vs")
    case (Inl e)
    then show ?thesis using False by (simp add: get_compliance_score_def)
  next
    case (Inr t)
    have n: "0 < int (length vs)" using False by simp
    have "py_round2 (max 0 (py_sub 100 (py_mul (py_truediv t (int (length vs) * 10)) 100))) < 100"
      using weighted_score_below_100[OF n sum_scores_bounds[OF Inr]] .
    then show ?thesis using False Inr by (auto simp add: get_compliance_score_def Let_def)
  qed
qed

theorem score_100_iff_empty_witness:
  "[[(''severity'', ''LOW'')]] \<noteq> []
   \<and> get_compliance_score [[(''severity'', ''LOW'')]] = Inr 80
   \<and> get_compliance_score [[(''severity'', ''LOW'')]] \<noteq> Inr 100"
proof -
  have v: "get_compliance_score [[(''severity'', ''LOW'')]] = Inr 80" by code_simp
  show ?thesis using v score_100_iff_empty [of "[[(''severity'', ''LOW'')]]"] by simp
qed

section \<open>The IAM risk classifier\<close>

lemma check_attached_length: "length risk_reasons \<le> length (check_attached ps risk_reasons)"
proof (induction ps arbitrary: risk_reasons)
  case Nil
  then show ?case by simp
next
  case (Cons p ps)
  have "length risk_reasons \<le> length (if p \<in> set RISKY_POLICIES then risk_reasons @ [''Has '' @ p @ '' policy'']
        else if str_contains ''FullAccess'' p
          then risk_reasons @ [''Has '' @ p @ '' policy'']
        else risk_reasons)" by simp
  also have "\<dots> \<le> length (check_attached (p # ps) risk_reasons)"
    using Cons.IH by simp
  finally show ?case .
qed

lemma check_attached_risky:
  "p \<in> set ps \<Longrightarrow> p \<in> set RISKY_POLICIES \<Longrightarrow>
     length risk_reasons < length (check_attached ps risk_reasons)"
proof (induction ps arbitrary: risk_reasons)
  case Nil
  then show ?case by simp
next
  case (Cons a ps)
  show ?case
  proof (cases "a = p")
    case True
    have "length risk_reasons < length (risk_reasons @ [''Has '' @ p @ '' policy''])" by simp
    also have "\<dots> \<le> length (check_attached ps (risk_reasons @ [''Has '' @ p @ '' policy'']))"
      by (rule check_attached_length)
    finally show ?thesis using True Cons.prems by simp
  next
    case False
    then have "p \<in> set ps" using Cons.prems by simp
    from Cons.IH[OF this Cons.prems(2)] show ?thesis
      using check_attached_length[of risk_reasons "[a]"]
      by (simp add: less_le_trans[OF _ check_attached_length] split: if_splits)
  qed
qed

lemma critical_attached_reason:
  assumes "''AdministratorAccess'' \<in> set a \<or> ''IAMFullAccess'' \<in> set a"
  shows "snd (analyze_risk a i) \<noteq> []"
proof -
  obtain p where p: "p \<in> set a" "p \<in> set RISKY_POLICIES"
    using assms by (auto simp: RISKY_POLICIES_def)
  have "0 < length (check_attached a [])" using check_attached_risky[OF p, of "[]"] by simp
  then show ?thesis by (auto simp: analyze_risk_def Let_def)
qed

text \<open>
  Claim C4. For all attached and inline policy name lists, \<open>analyze_risk\<close> returns
  level CRITICAL exactly when \<open>AdministratorAccess\<close> or \<open>IAMFullAccess\<close> is attached;
  when neither is, the level is HIGH for three or more returned reasons, MEDIUM for one or
  two and LOW for none. No policies at all give LOW with no reason, and
  \<open>AdministratorAccess\<close> alone gives CRITICAL with the one reason naming it.
\<close>

theorem analyze_risk_level:
  "(fst (analyze_risk a i) = ''CRITICAL'')
      = (''AdministratorAccess'' \<in> set a \<or> ''IAMFullAccess'' \<in> set a)
   \<and> (''AdministratorAccess'' \<notin> set a \<and> ''IAMFullAccess'' \<notin> set a \<longrightarrow>
        (3 \<le> length (snd (analyze_risk a i)) \<longrightarrow> fst (analyze_risk a i) = ''HIGH'')
      \<and> (length (snd (analyze_risk a i)) = 1 \<or> length (snd (analyze_risk a i)) = 2
            \<longrightarrow> fst (analyze_risk a i) = ''MEDIUM'')
      \<and> (length (snd (analyze_risk a i)) = 0 \<longrightarrow> fst (analyze_risk a i) = ''LOW''))
   \<and> analyze_risk [] [] = (''LOW'', [])
   \<and> analyze_risk [''AdministratorAccess''] [] = (''CRITICAL'', [''Has AdministratorAccess policy''])"
  by (auto simp: analyze_risk_def Let_def RISKY_POLICIES_def)

theorem analyze_risk_level_witness:
  "''AdministratorAccess'' \<notin> set [''ReadOnlyAccess'', ''AmazonS3FullAccess'']
   \<and> ''IAMFullAccess'' \<notin> set [''ReadOnlyAccess'', ''AmazonS3FullAccess'']
   \<and> length (snd (analyze_risk [''ReadOnlyAccess'', ''AmazonS3FullAccess''] [''inline-1''])) = 2
   \<and> analyze_risk [''ReadOnlyAccess'', ''AmazonS3FullAccess''] [''inline-1'']
       = (''MEDIUM'', [''Has AmazonS3FullAccess policy'', ''Has 1 inline policies''])"
  using analyze_risk_level [of "[''ReadOnlyAccess'', ''AmazonS3FullAccess'']" "[''inline-1'']"]
  by code_simp

text \<open>
  Claim C10. The level is LOW exactly when the list of reasons is empty. The CRITICAL
  level never comes with an empty list: \<open>AdministratorAccess\<close> and \<open>IAMFullAccess\<close>
  are members of \<open>RISKY_POLICIES\<close>, so the loop over the attached policies has recorded
  a reason for them before the level is chosen.
\<close>

theorem low_iff_no_reasons:
  "(fst (analyze_risk a i) = ''LOW'') = (snd (analyze_risk a i) = [])
   \<and> (fst (analyze_risk a i) = ''CRITICAL'' \<longrightarrow> snd (analyze_risk a i) \<noteq> [])
   \<and> ''AdministratorAccess'' \<in> set RISKY_POLICIES
   \<and> ''IAMFullAccess'' \<in> set RISKY_POLICIES"
proof -
  have crit: "fst (analyze_risk a i) = ''CRITICAL'' \<Longrightarrow> snd (analyze_risk a i) \<noteq> []"
  proof -
    assume "fst (analyze_risk a i) = ''CRITICAL''"
    then have "''AdministratorAccess'' \<in> set a \<or> ''IAMFullAccess'' \<in> set a"
      by (auto simp: analyze_risk_def Let_def split: if_splits)
    then show ?thesis by (rule critical_attached_reason)
  qed
  have low: "(fst (analyze_risk a i) = ''LOW'') = (snd (analyze_risk a i) = [])"
  proof (cases "''AdministratorAccess'' \<in> set a \<or> ''IAMFullAccess'' \<in> set a")
    case True
    then have "fst (analyze_risk a i) = ''CRITICAL''" by (auto simp: analyze_risk_def Let_def)
    then show ?thesis using crit by simp
  next
    case False
    then show ?thesis by (auto simp: analyze_risk_def Let_def)
  qed
  show ?thesis using crit low by (simp add: RISKY_POLICIES_def)
qed

theorem low_iff_no_reasons_witness:
  "fst (analyze_risk [''IAMFullAccess''] []) = ''CRITICAL''
   \<and> snd (analyze_risk [''IAMFullAccess''] []) = [''Has IAMFullAccess policy'']
   \<and> fst (analyze_risk [''ReadOnlyAccess''] []) = ''LOW''
   \<and> snd (analyze_risk [''ReadOnlyAccess''] []) = []"
  using low_iff_no_reasons [of "[''IAMFullAccess'']" "[]"]
  by code_simp

section \<open>scan\_all\_resources\<close>

lemma fold_db_delete:
  "fold (\<lambda>result s. db_delete s result) rs db = db\<lparr>pending_deletes := pending_deletes db @ rs\<rparr>"
  by (induction rs arbitrary: db) (simp_all add: db_delete_def)

lemma fold_db_add:
  "fold (\<lambda>v s. db_add s (f v)) vs db = db\<lparr>pending_results := pending_results db @ map f vs\<rparr>"
  by (induction vs arbitrary: db) (simp_all add: db_add_def)

lemma filter_not_in_filter:
  "filter (\<lambda>x. x \<in> set xs \<longrightarrow> \<not> P x) xs = filter (\<lambda>x. \<not> P x) xs"
  by (rule filter_cong) auto

lemma clear_old_results_fresh:
  assumes "nothing_pending db"
  shows "clear_old_results a r db =
    \<lparr>committed = without_scope a r (committed db), pending_results = [], pending_history = [],
     pending_deletes = [], observed = observed db @ [without_scope a r (committed db)]\<rparr>"
  using assms
  by (simp add: clear_old_results_def fold_db_delete db_commit_def constraints_hold_def
      nothing_pending_def without_scope_def filter_not_in_filter Let_def)

lemma scan_all_resources_fresh:
  assumes "nothing_pending db"
  shows "scan_all_resources a r env now db =
    Inr \<lparr>committed =
           \<lparr>scan_results = scan_results (without_scope a r (committed db))
              @ map (ScanResult_of a r now) (run_all_scanners a env),
            scan_history_rows = scan_history_rows (committed db)\<rparr>,
         pending_results = [], pending_history = [], pending_deletes = [],
         observed = observed db @
           [without_scope a r (committed db),
            \<lparr>scan_results = scan_results (without_scope a r (committed db))
               @ map (ScanResult_of a r now) (run_all_scanners a env),
             scan_history_rows = scan_history_rows (committed db)\<rparr>]\<rparr>"
proof -
  have reg: "list_all (\<lambda>x. \<exists>y. sr_region x = Some y) (map (ScanResult_of a r now) vs)" for vs
    by (induction vs) (simp_all add: ScanResult_of_def)
  show ?thesis
    by (simp add: scan_all_resources_def clear_old_results_fresh[OF assms] fold_db_add
        db_commit_def constraints_hold_def reg without_scope_def Let_def)
qed

lemma active_for_without_scope: "active_for a r (without_scope a r d) = []"
  by (simp add: active_for_def without_scope_def)

lemma active_for_new_rows:
  "active_for a r \<lparr>scan_results = scan_results (without_scope a r d) @ map (ScanResult_of a r now) vs,
      scan_history_rows = h\<rparr> = map (ScanResult_of a r now) vs"
proof -
  have "filter (in_scope a r) (map (ScanResult_of a r now) vs) = map (ScanResult_of a r now) vs"
    by (induction vs) (simp_all add: in_scope_def ScanResult_of_def)
  then show ?thesis by (simp add: active_for_def without_scope_def)
qed

lemma no_inventory_no_findings:
  assumes "inventory_fetch_fails env"
  shows "run_all_scanners a env = []"
proof -
  obtain p ps where pages: "list_users_pages env = p # ps" "isl p"
    using assms by (auto simp: inventory_fetch_fails_def split: list.splits)
  then obtain e where "p = Inl e" by (cases p) auto
  then have iam: "scan_iam_policies env = []" using pages by (simp add: scan_iam_policies_def)
  have s3: "scan_s3_encryption env = []"
    using assms by (cases "list_buckets env") (simp_all add: inventory_fetch_fails_def scan_s3_encryption_def)
  have sg: "scan_security_groups env = []"
    using assms by (cases "describe_security_groups env") (simp_all add: inventory_fetch_fails_def scan_security_groups_def)
  have ct: "scan_cloudtrail_logging a env = []"
    using assms by (cases "describe_trails env") (simp_all add: inventory_fetch_fails_def scan_cloudtrail_logging_def)
  have rds: "scan_rds_encryption env = []"
    using assms by (cases "describe_db_instances env") (simp_all add: inventory_fetch_fails_def scan_rds_encryption_def)
  show ?thesis by (simp add: run_all_scanners_def s3 iam sg ct rds)
qed

text \<open>
  Claim C3, as amended. When no inventory can be fetched for the scope (every listing
  call of the provider fails), \<open>scan_all_resources\<close>, run on a session with nothing
  pending, does not abort: each scanner logs its failure and returns no finding, and the
  call completes. It writes no row of \<open>scan_history\<close>, but the rows of the scope that
  were stored before are deleted and none is inserted, so the scope is left with no
  active violation; the rows of other scopes are untouched.
\<close>

theorem inventory_failure_clears_scope:
  assumes "inventory_fetch_fails env" and "nothing_pending db"
  shows "\<exists>db'. scan_all_resources a r env now db = Inr db'
     \<and> committed db' = without_scope a r (committed db)
     \<and> scan_history_rows (committed db') = scan_history_rows (committed db)
     \<and> active_for a r (committed db') = []"
  by (simp add: scan_all_resources_fresh[OF assms(2)] no_inventory_no_findings[OF assms(1)]
      active_for_without_scope without_scope_def active_for_def)

theorem inventory_failure_clears_scope_witness:
  "inventory_fetch_fails unreachable_provider
   \<and> nothing_pending (SessionLocal example_database)
   \<and> (\<exists>db'. scan_all_resources ''123'' ''us-east-1'' unreachable_provider 100
               (SessionLocal example_database) = Inr db'
        \<and> committed db' = without_scope ''123'' ''us-east-1'' example_database
        \<and> scan_history_rows (committed db') = []
        \<and> active_for ''123'' ''us-east-1'' (committed db') = [])"
proof -
  have h1: "inventory_fetch_fails unreachable_provider"
    by (simp add: inventory_fetch_fails_def unreachable_provider_def)
  have h2: "nothing_pending (SessionLocal example_database)"
    by (simp add: nothing_pending_def SessionLocal_def)
  show ?thesis
    using h1 h2 inventory_failure_clears_scope [OF h1 h2, of "''123''" "''us-east-1''" 100]
    by (simp add: SessionLocal_def example_database_def)
qed

text \<open>
  Claim C3 as stated fails: with one stored finding for the scope and a provider that
  answers no listing call, the cycle returns normally, the stored finding is gone, and
  the dashboard over the resulting table shows a compliance score of 100 with no
  violation.
\<close>

theorem inventory_failure_counterexample:
  "active_for ''123'' ''us-east-1'' example_database = [old_finding]
   \<and> inventory_fetch_fails unreachable_provider
   \<and> scan_all_resources ''123'' ''us-east-1'' unreachable_provider 100
        (SessionLocal example_database)
      = Inr \<lparr>committed = \<lparr>scan_results = [], scan_history_rows = []\<rparr>,
             pending_results = [], pending_history = [], pending_deletes = [],
             observed = [\<lparr>scan_results = [], scan_history_rows = []\<rparr>,
                         \<lparr>scan_results = [], scan_history_rows = []\<rparr>]\<rparr>
   \<and> get_dashboard \<lparr>scan_results = [], scan_history_rows = []\<rparr>
      = \<lparr>d_compliance_score = 100, d_critical = 0, d_high = 0, d_medium = 0, d_low = 0,
         d_total_resources_scanned = 0\<rparr>"
  by code_simp

text \<open>
  Claim C5, as amended. \<open>scan_all_resources\<close>, run on a session with nothing pending,
  replaces the active violations of a scope in two commits: the first makes visible the
  tables without any row of the scope, before the scanners run; the second makes visible
  the new rows, all at once. Between the two, a reader sees the scope with no violation,
  whatever the scan then finds.
\<close>

theorem scope_replacement_two_commits:
  assumes "nothing_pending db"
  shows "\<exists>db'. scan_all_resources a r env now db = Inr db'
     \<and> observed db' = observed db @ [without_scope a r (committed db), committed db']
     \<and> active_for a r (without_scope a r (committed db)) = []
     \<and> active_for a r (committed db') = map (ScanResult_of a r now) (run_all_scanners a env)
     \<and> scan_results (committed db')
         = scan_results (without_scope a r (committed db))
           @ map (ScanResult_of a r now) (run_all_scanners a env)"
  by (simp add: scan_all_resources_fresh[OF assms] active_for_without_scope active_for_new_rows)

theorem scope_replacement_two_commits_witness:
  "nothing_pending (SessionLocal example_database)
   \<and> (\<exists>db'. scan_all_resources ''123'' ''us-east-1'' example_provider 100
               (SessionLocal example_database) = Inr db'
        \<and> observed db' = [\<lparr>scan_results = [], scan_history_rows = []\<rparr>, committed db']
        \<and> active_for ''123'' ''us-east-1'' (committed db')
            = [old_finding\<lparr>sr_timestamp := 100\<rparr>])"
proof -
  have h: "nothing_pending (SessionLocal example_database)"
    by (simp add: nothing_pending_def SessionLocal_def)
  have f: "run_all_scanners ''123'' example_provider
      = [\<lparr>resource_id = ''db-1'', resource_type = ''RDS Instance'',
          violation_name = ''Unencrypted RDS Instance'', severity = ''CRITICAL'',
          compliance_framework = ''NIST SP 800-53 SC-28''\<rparr>]"
    by code_simp
  have w: "without_scope ''123'' ''us-east-1'' example_database
      = \<lparr>scan_results = [], scan_history_rows = []\<rparr>"
    by code_simp
  show ?thesis
    using h scope_replacement_two_commits [OF h, of "''123''" "''us-east-1''" example_provider 100]
    by (auto simp add: f w SessionLocal_def ScanResult_of_def old_finding_def)
qed

text \<open>
  Claim C5 as stated fails: the scope holds one finding before the cycle and one after
  it, and the first state the cycle commits shows the scope with none.
\<close>

theorem empty_scope_observed_counterexample:
  "scan_all_resources ''123'' ''us-east-1'' example_provider 100 (SessionLocal example_database)
      = Inr \<lparr>committed = \<lparr>scan_results = [old_finding\<lparr>sr_timestamp := 100\<rparr>],
                           scan_history_rows = []\<rparr>,
             pending_results = [], pending_history = [], pending_deletes = [],
             observed = [\<lparr>scan_results = [], scan_history_rows = []\<rparr>,
                         \<lparr>scan_results = [old_finding\<lparr>sr_timestamp := 100\<rparr>],
                          scan_history_rows = []\<rparr>]\<rparr>
   \<and> active_for ''123'' ''us-east-1'' example_database = [old_finding]
   \<and> active_for ''123'' ''us-east-1'' \<lparr>scan_results = [], scan_history_rows = []\<rparr> = []
   \<and> active_for ''123'' ''us-east-1''
        \<lparr>scan_results = [old_finding\<lparr>sr_timestamp := 100\<rparr>], scan_history_rows = []\<rparr>
      = [old_finding\<lparr>sr_timestamp := 100\<rparr>]"
  by code_simp

lemma new_rows_status:
  "list_all (\<lambda>x. sr_status x = ''NEW'' \<and> sr_first_detected x = None)
     (map (ScanResult_of a r now) vs)"
  by (induction vs) (simp_all add: ScanResult_of_def)

lemma rescan_scope:
  assumes "nothing_pending db"
  shows "\<exists>db1 db2. scan_all_resources a r env t1 db = Inr db1
     \<and> scan_all_resources a r env t2 db1 = Inr db2
     \<and> active_for a r (committed db1) = map (ScanResult_of a r t1) (run_all_scanners a env)
     \<and> active_for a r (committed db2) = map (ScanResult_of a r t2) (run_all_scanners a env)"
proof -
  obtain db1 where 1: "scan_all_resources a r env t1 db = Inr db1"
    and a1: "active_for a r (committed db1) = map (ScanResult_of a r t1) (run_all_scanners a env)"
    and p1: "nothing_pending db1"
    using scan_all_resources_fresh[OF assms, of a r env t1]
    by (simp add: active_for_new_rows nothing_pending_def)
  obtain db2 where 2: "scan_all_resources a r env t2 db1 = Inr db2"
    and a2: "active_for a r (committed db2) = map (ScanResult_of a r t2) (run_all_scanners a env)"
    using scan_all_resources_fresh[OF p1, of a r env t2]
    by (simp add: active_for_new_rows)
  show ?thesis using 1 2 a1 a2 by blast
qed

section \<open>scheduled\_scan\_job\<close>

lemma db_rollback_nothing_pending: "nothing_pending (db_rollback db)"
  by (simp add: nothing_pending_def db_rollback_def)

lemma db_rollback_committed: "committed (db_rollback db) = committed db"
  by (simp add: db_rollback_def)

lemma db_commit_Inr:
  assumes "db_commit db = Inr db'"
  shows "nothing_pending db'"
    and "scan_results (committed db') =
       filter (\<lambda>r. r \<notin> set (pending_deletes db)) (scan_results (committed db)) @ pending_results db"
    and "scan_history_rows (committed db') = scan_history_rows (committed db) @ pending_history db"
  using assms by (auto simp: db_commit_def nothing_pending_def Let_def split: if_splits)

lemma scan_accounts_appends:
  assumes "nothing_pending db"
  shows "\<exists>newr newh.
      scan_results (committed (fst (scan_accounts scan uuid4 k accts db clock)))
        = scan_results (committed db) @ newr
    \<and> scan_history_rows (committed (fst (scan_accounts scan uuid4 k accts db clock)))
        = scan_history_rows (committed db) @ newh
    \<and> length newh \<le> length (takeWhile (\<lambda>a. \<exists>t. \<not> isl (scan a t)) accts)
    \<and> list_all (\<lambda>x. sr_status x = ''NEW'' \<and> sr_first_detected x = Some (sr_timestamp x)) newr
    \<and> list_all (\<lambda>h. sh_triggered_by h = ''scheduled'') newh"
  using assms
proof (induction accts arbitrary: k db clock)
  case Nil
  then show ?case by simp
next
  case (Cons account rest)
  show ?case
  proof (cases "scan account clock")
    case (Inl e)
    then show ?thesis by (simp add: db_rollback_committed)
  next
    case (Inr p)
    obtain results now where p: "p = (results, now)" by (cases p)
    define db2 where "db2 = db_add_history
        (fold (\<lambda>r s. db_add s (scheduled_ScanResult (uuid4 k) account now r)) results db)
        (scheduled_ScanHistory (uuid4 k) account clock now results)"
    have pend: "pending_results db2 = map (scheduled_ScanResult (uuid4 k) account now) results"
      "pending_history db2 = [scheduled_ScanHistory (uuid4 k) account clock now results]"
      "pending_deletes db2 = []" "committed db2 = committed db"
      using Cons.prems
      by (simp_all add: db2_def db_add_history_def fold_db_add nothing_pending_def)
    show ?thesis
    proof (cases "db_commit db2")
      case (Inl e)
      then show ?thesis using Inr p
        by (simp add: db2_def[symmetric] db_rollback_committed pend Let_def)
    next
      case c: (Inr db3)
      note f = db_commit_Inr[OF c]
      from Cons.IH[OF f(1), of "Suc k" now] obtain newr newh where
        ih: "scan_results (committed (fst (scan_accounts scan uuid4 (Suc k) rest db3 now)))
             = scan_results (committed db3) @ newr"
          "scan_history_rows (committed (fst (scan_accounts scan uuid4 (Suc k) rest db3 now)))
             = scan_history_rows (committed db3) @ newh"
          "length newh \<le> length (takeWhile (\<lambda>a. \<exists>t. \<not> isl (scan a t)) rest)"
          "list_all (\<lambda>x. sr_status x = ''NEW'' \<and> sr_first_detected x = Some (sr_timestamp x)) newr"
          "list_all (\<lambda>h. sh_triggered_by h = ''scheduled'') newh"
        by blast
      have rows: "list_all (\<lambda>x. sr_status x = ''NEW'' \<and> sr_first_detected x = Some (sr_timestamp x))
          (map (scheduled_ScanResult (uuid4 k) account now) results)"
        by (induction results) (simp_all add: scheduled_ScanResult_def)
      have hist: "sh_triggered_by (scheduled_ScanHistory (uuid4 k) account clock now results) = ''scheduled''"
        by (simp add: scheduled_ScanHistory_def Let_def)
      have ok: "\<exists>t. \<not> isl (scan account t)" using Inr by (intro exI[of _ clock]) simp
      have eq: "scan_accounts scan uuid4 k (account # rest) db clock
          = scan_accounts scan uuid4 (Suc k) rest db3 now"
        using Inr p c by (simp add: db2_def[symmetric] Let_def)
      show ?thesis
        unfolding eq
        apply (rule exI[of _ "map (scheduled_ScanResult (uuid4 k) account now) results @ newr"])
        apply (rule exI[of _ "scheduled_ScanHistory (uuid4 k) account clock now results # newh"])
        using ih rows hist ok by (simp add: f pend)
    qed
  qed
qed

lemma scan_accounts_stops:
  assumes "\<And>t. isl (scan bad t)"
  shows "scan_accounts scan uuid4 k (pre @ bad # post) db clock
       = scan_accounts scan uuid4 k (pre @ [bad]) db clock"
proof (induction pre arbitrary: k db clock)
  case Nil
  obtain e where "scan bad clock = Inl e" using assms[of clock] by (cases "scan bad clock") auto
  then show ?case by simp
next
  case (Cons a pre)
  then show ?case by (simp add: Let_def split: sum.splits prod.splits)
qed


lemma takeWhile_stops:
  assumes "\<not> P bad"
  shows "length (takeWhile P (pre @ bad # post)) \<le> length pre"
  using assms by (induction pre) simp_all

text \<open>
  Claim C6, as amended. In a firing with monitoring enabled, the targets are scanned in
  order inside one \<open>try\<close> block: a target whose scan fails ends the firing. The
  targets after it are not reached, so the firing does what it would do if the failing
  target were the last one; it adds at most one \<open>scan_history\<close> row per target before
  the failing one, none for the failing target or any later one, and every row it adds
  has \<open>triggered_by = scheduled\<close>.
\<close>

theorem firing_stops_at_failing_target:
  assumes "\<And>t. isl (scan bad t)"
  shows "scheduled_scan_job scan uuid4
           (Some \<lparr>enabled = True, interval_hours = h, accounts = pre @ bad # post\<rparr>) d clock
         = scheduled_scan_job scan uuid4
           (Some \<lparr>enabled = True, interval_hours = h, accounts = pre @ [bad]\<rparr>) d clock
     \<and> (\<exists>new. scan_history_rows (fst (scheduled_scan_job scan uuid4
            (Some \<lparr>enabled = True, interval_hours = h, accounts = pre @ bad # post\<rparr>) d clock))
           = scan_history_rows d @ new
          \<and> length new \<le> length pre
          \<and> list_all (\<lambda>h. sh_triggered_by h = ''scheduled'') new)"
proof -
  have np: "nothing_pending (SessionLocal d)" by (simp add: nothing_pending_def SessionLocal_def)
  have same: "scheduled_scan_job scan uuid4
           (Some \<lparr>enabled = True, interval_hours = h, accounts = pre @ bad # post\<rparr>) d clock
         = scheduled_scan_job scan uuid4
           (Some \<lparr>enabled = True, interval_hours = h, accounts = pre @ [bad]\<rparr>) d clock"
  proof -
    have sa: "scan_accounts scan uuid4 0 (pre @ bad # post) (SessionLocal d) clock
        = scan_accounts scan uuid4 0 (pre @ [bad]) (SessionLocal d) clock"
      by (rule scan_accounts_stops[of scan bad, OF assms])
    show ?thesis by (simp add: scheduled_scan_job_def load_config_def sa)
  qed
  have bad: "\<not> (\<exists>t. \<not> isl (scan bad t))" using assms by simp
  obtain newr newh where
    app: "scan_history_rows (committed (fst (scan_accounts scan uuid4 0 (pre @ bad # post) (SessionLocal d) clock)))
        = scan_history_rows (committed (SessionLocal d)) @ newh"
      "length newh \<le> length (takeWhile (\<lambda>a. \<exists>t. \<not> isl (scan a t)) (pre @ bad # post))"
      "list_all (\<lambda>h. sh_triggered_by h = ''scheduled'') newh"
    using scan_accounts_appends[OF np, of scan uuid4 0 "pre @ bad # post" clock] by blast
  have len: "length newh \<le> length pre"
    using app(2) takeWhile_stops[of "\<lambda>a. \<exists>t. \<not> isl (scan a t)" bad pre post, OF bad] by linarith
  have "\<exists>new. scan_history_rows (fst (scheduled_scan_job scan uuid4
            (Some \<lparr>enabled = True, interval_hours = h, accounts = pre @ bad # post\<rparr>) d clock))
           = scan_history_rows d @ new
          \<and> length new \<le> length pre
          \<and> list_all (\<lambda>h. sh_triggered_by h = ''scheduled'') new"
    using app(1,3) len
    by (auto simp: scheduled_scan_job_def load_config_def SessionLocal_def split: prod.splits)
  then show ?thesis using same by blast
qed

theorem firing_stops_at_failing_target_witness:
  "(\<forall>t. isl (first_target_fails first_target t))
   \<and> scheduled_scan_job first_target_fails example_uuid4
        (Some \<lparr>enabled = True, interval_hours = 24,
               accounts = [second_target] @ first_target # [second_target]\<rparr>) empty_database 1000
      = scheduled_scan_job first_target_fails example_uuid4
        (Some \<lparr>enabled = True, interval_hours = 24,
               accounts = [second_target] @ [first_target]\<rparr>) empty_database 1000
   \<and> map sh_account_id (scan_history_rows (fst (scheduled_scan_job first_target_fails example_uuid4
        (Some \<lparr>enabled = True, interval_hours = 24,
               accounts = [second_target] @ first_target # [second_target]\<rparr>) empty_database 1000)))
      = [Some ''222'']"
proof -
  have h: "isl (first_target_fails first_target t)" for t
    by (simp add: first_target_fails_def)
  have c: "map sh_account_id (scan_history_rows (fst (scheduled_scan_job first_target_fails example_uuid4
        (Some \<lparr>enabled = True, interval_hours = 24,
               accounts = [second_target] @ first_target # [second_target]\<rparr>) empty_database 1000)))
      = [Some ''222'']"
    by code_simp
  show ?thesis
    using h c firing_stops_at_failing_target
      [of first_target_fails first_target example_uuid4 24 "[second_target]" "[second_target]"
          empty_database 1000, OF h]
    by blast
qed

text \<open>
  Claim C6 as stated fails: with two targets of which the first cannot be scanned, the
  firing writes nothing, although the second target scanned alone yields its record.
\<close>

theorem later_target_not_scanned_counterexample:
  "scheduled_scan_job first_target_fails example_uuid4
     (Some \<lparr>enabled = True, interval_hours = 24, accounts = [first_target, second_target]\<rparr>)
     empty_database 1000
    = (\<lparr>scan_results = [], scan_history_rows = []\<rparr>, 1000)
   \<and> map sh_account_id (scan_history_rows (fst (scheduled_scan_job first_target_fails example_uuid4
        (Some \<lparr>enabled = True, interval_hours = 24, accounts = [second_target]\<rparr>)
        empty_database 1000)))
      = [Some ''222'']
   \<and> map sh_triggered_by (scan_history_rows (fst (scheduled_scan_job first_target_fails example_uuid4
        (Some \<lparr>enabled = True, interval_hours = 24, accounts = [second_target]\<rparr>)
        empty_database 1000)))
      = [''scheduled'']"
  by code_simp

section \<open>configure\_monitoring\<close>

text \<open>
  Claim C7, as amended. \<open>configure_monitoring\<close> validates neither the interval nor
  the targets. With \<open>enabled\<close> false it stores any interval and any list of targets as
  given, removes the job and returns the new configuration. With \<open>enabled\<close> true the
  interval goes to the interval trigger of the job scheduler library: if the library
  accepts it the configuration is stored and the job replaced; if it raises, the call
  fails and the configuration file is unchanged, the job having been removed already.
\<close>

theorem configure_monitoring_unvalidated:
  "(writable \<longrightarrow>
      configure_monitoring trigger_ok writable False h (Some accts) st
        = (Inr \<lparr>enabled = False, interval_hours = h, accounts = accts\<rparr>,
           \<lparr>config_file = Some \<lparr>enabled = False, interval_hours = h, accounts = accts\<rparr>,
            jobs = []\<rparr>))
   \<and> (writable \<and> trigger_ok h \<longrightarrow>
      configure_monitoring trigger_ok writable True h (Some accts) st
        = (Inr \<lparr>enabled = True, interval_hours = h, accounts = accts\<rparr>,
           \<lparr>config_file = Some \<lparr>enabled = True, interval_hours = h, accounts = accts\<rparr>,
            jobs = [(''compliance_scan'', h)]\<rparr>))
   \<and> (\<not> trigger_ok h \<longrightarrow>
      configure_monitoring trigger_ok writable True h a st
        = (Inl TriggerError, \<lparr>config_file = config_file st, jobs = []\<rparr>))"
  by (cases st) (simp add: configure_monitoring_def save_config_def load_config_def Let_def
      split: option.splits)

theorem configure_monitoring_unvalidated_witness:
  "configure_monitoring (\<lambda>h. 0 < h) True False (- 5)
      (Some [\<lparr>acc_account_id = None, acc_region = None, acc_access_key = None,
              acc_secret_key = None\<rparr>])
      \<lparr>config_file = Some \<lparr>enabled = True, interval_hours = 24, accounts = [first_target]\<rparr>,
       jobs = [(''compliance_scan'', 24)]\<rparr>
    = (Inr \<lparr>enabled = False, interval_hours = - 5,
            accounts = [\<lparr>acc_account_id = None, acc_region = None, acc_access_key = None,
                         acc_secret_key = None\<rparr>]\<rparr>,
       \<lparr>config_file = Some \<lparr>enabled = False, interval_hours = - 5,
            accounts = [\<lparr>acc_account_id = None, acc_region = None, acc_access_key = None,
                         acc_secret_key = None\<rparr>]\<rparr>,
        jobs = []\<rparr>)
   \<and> configure_monitoring (\<lambda>h. 0 < h) True True (- 5) None
      \<lparr>config_file = Some \<lparr>enabled = True, interval_hours = 24, accounts = [first_target]\<rparr>,
       jobs = [(''compliance_scan'', 24)]\<rparr>
    = (Inl TriggerError,
       \<lparr>config_file = Some \<lparr>enabled = True, interval_hours = 24, accounts = [first_target]\<rparr>,
        jobs = []\<rparr>)"
  using configure_monitoring_unvalidated
    [of True "\<lambda>h. 0 < h" "- 5"
        "[\<lparr>acc_account_id = None, acc_region = None, acc_access_key = None,
           acc_secret_key = None\<rparr>]"
        "\<lparr>config_file = Some \<lparr>enabled = True, interval_hours = 24, accounts = [first_target]\<rparr>,
          jobs = [(''compliance_scan'', 24)]\<rparr>" None]
  by simp

text \<open>
  Claim C7 as stated fails: configuring an interval of 0 hours with monitoring disabled
  returns normally and overwrites the stored interval of 24 with 0.
\<close>

theorem invalid_interval_accepted_counterexample:
  "configure_monitoring (\<lambda>h. 0 < h) True False 0 None
      \<lparr>config_file = Some \<lparr>enabled = True, interval_hours = 24, accounts = [first_target]\<rparr>,
       jobs = [(''compliance_scan'', 24)]\<rparr>
    = (Inr \<lparr>enabled = False, interval_hours = 0, accounts = [first_target]\<rparr>,
       \<lparr>config_file = Some \<lparr>enabled = False, interval_hours = 0, accounts = [first_target]\<rparr>,
        jobs = []\<rparr>)"
  by (simp add: configure_monitoring_def save_config_def load_config_def Let_def)

section \<open>Scanning a scope again\<close>

lemma scheduled_scan_job_appends:
  "\<exists>new. scan_results (fst (scheduled_scan_job scan uuid4 cf d clock)) = scan_results d @ new
     \<and> list_all (\<lambda>x. sr_status x = ''NEW'' \<and> sr_first_detected x = Some (sr_timestamp x)) new"
proof -
  have np: "nothing_pending (SessionLocal d)" by (simp add: nothing_pending_def SessionLocal_def)
  obtain newr where
    app: "scan_results (committed (fst (scan_accounts scan uuid4 0 (accounts (load_config cf)) (SessionLocal d) clock)))
        = scan_results (committed (SessionLocal d)) @ newr"
      "list_all (\<lambda>x. sr_status x = ''NEW'' \<and> sr_first_detected x = Some (sr_timestamp x)) newr"
    using scan_accounts_appends[OF np, of scan uuid4 0 "accounts (load_config cf)" clock] by blast
  show ?thesis
  proof (cases "enabled (load_config cf) \<and> accounts (load_config cf) \<noteq> []")
    case True
    then show ?thesis using app
      by (auto simp: scheduled_scan_job_def SessionLocal_def Let_def split: prod.splits)
  next
    case False
    have "scan_results (fst (scheduled_scan_job scan uuid4 cf d clock)) = scan_results d @ []"
      using False by (auto simp: scheduled_scan_job_def Let_def)
    then show ?thesis by (intro exI[of _ "[]"]) simp
  qed
qed

text \<open>
  Claim C2, as amended. Running \<open>scan_all_resources\<close> twice on the same inventory,
  from a session with nothing pending, yields the same violations of the scope (the same
  resources and violation names) with the same \<open>first_detected\<close> both times, the column
  being left unset by both runs; after the second run every row of the scope has status
  NEW, not EXISTING. A scheduled firing keeps the stored rows and adds rows that have
  status NEW and \<open>first_detected\<close> equal to the time they were written.
\<close>

theorem rescan_writes_new_rows:
  assumes "nothing_pending db"
  shows "(\<exists>db1 db2. scan_all_resources a r env t1 db = Inr db1
          \<and> scan_all_resources a r env t2 db1 = Inr db2
          \<and> map sr_first_detected (active_for a r (committed db2))
              = map sr_first_detected (active_for a r (committed db1))
          \<and> map sr_resource_id (active_for a r (committed db2))
              = map sr_resource_id (active_for a r (committed db1))
          \<and> map sr_violation_name (active_for a r (committed db2))
              = map sr_violation_name (active_for a r (committed db1))
          \<and> list_all (\<lambda>x. sr_status x = ''NEW'' \<and> sr_first_detected x = None)
               (active_for a r (committed db2)))
     \<and> (\<exists>new. scan_results (fst (scheduled_scan_job scan uuid4 cf d clock)) = scan_results d @ new
          \<and> list_all (\<lambda>x. sr_status x = ''NEW'' \<and> sr_first_detected x = Some (sr_timestamp x)) new)"
proof -
  obtain db1 db2 where
    r: "scan_all_resources a r env t1 db = Inr db1" "scan_all_resources a r env t2 db1 = Inr db2"
      "active_for a r (committed db1) = map (ScanResult_of a r t1) (run_all_scanners a env)"
      "active_for a r (committed db2) = map (ScanResult_of a r t2) (run_all_scanners a env)"
    using rescan_scope[OF assms, of a r env t1 t2] by blast
  have "map sr_first_detected (active_for a r (committed db2))
      = map sr_first_detected (active_for a r (committed db1))"
    "map sr_resource_id (active_for a r (committed db2))
      = map sr_resource_id (active_for a r (committed db1))"
    "map sr_violation_name (active_for a r (committed db2))
      = map sr_violation_name (active_for a r (committed db1))"
    by (simp_all add: r ScanResult_of_def comp_def)
  moreover have "list_all (\<lambda>x. sr_status x = ''NEW'' \<and> sr_first_detected x = None)
      (active_for a r (committed db2))"
    by (simp add: r new_rows_status)
  ultimately have first: "\<exists>db1 db2. scan_all_resources a r env t1 db = Inr db1
          \<and> scan_all_resources a r env t2 db1 = Inr db2
          \<and> map sr_first_detected (active_for a r (committed db2))
              = map sr_first_detected (active_for a r (committed db1))
          \<and> map sr_resource_id (active_for a r (committed db2))
              = map sr_resource_id (active_for a r (committed db1))
          \<and> map sr_violation_name (active_for a r (committed db2))
              = map sr_violation_name (active_for a r (committed db1))
          \<and> list_all (\<lambda>x. sr_status x = ''NEW'' \<and> sr_first_detected x = None)
               (active_for a r (committed db2))"
    using r(1,2) by blast
  show ?thesis using first scheduled_scan_job_appends[of scan uuid4 cf d clock] by blast
qed

theorem rescan_writes_new_rows_witness:
  "nothing_pending (SessionLocal empty_database)
   \<and> (\<exists>db1 db2. scan_all_resources ''123'' ''us-east-1'' example_provider 100
                   (SessionLocal empty_database) = Inr db1
          \<and> scan_all_resources ''123'' ''us-east-1'' example_provider 200 db1 = Inr db2
          \<and> map sr_first_detected (active_for ''123'' ''us-east-1'' (committed db2))
              = map sr_first_detected (active_for ''123'' ''us-east-1'' (committed db1))
          \<and> list_all (\<lambda>x. sr_status x = ''NEW'' \<and> sr_first_detected x = None)
               (active_for ''123'' ''us-east-1'' (committed db2)))"
proof -
  have h: "nothing_pending (SessionLocal empty_database)"
    by (simp add: nothing_pending_def SessionLocal_def)
  show ?thesis
    using h rescan_writes_new_rows [OF h, of "''123''" "''us-east-1''" example_provider 100 200]
    by blast
qed

text \<open>
  Claim C2 as stated fails: after the second of two identical scans the violation has
  status NEW; and two scheduled firings over the same inventory store each violation
  twice, with the \<open>first_detected\<close> of its own firing each time.
\<close>

theorem rescan_status_counterexample:
  "scan_all_resources ''123'' ''us-east-1'' example_provider 100 (SessionLocal empty_database)
     = Inr \<lparr>committed = \<lparr>scan_results = [old_finding\<lparr>sr_timestamp := 100\<rparr>],
                          scan_history_rows = []\<rparr>,
            pending_results = [], pending_history = [], pending_deletes = [],
            observed = [\<lparr>scan_results = [], scan_history_rows = []\<rparr>,
                        \<lparr>scan_results = [old_finding\<lparr>sr_timestamp := 100\<rparr>],
                         scan_history_rows = []\<rparr>]\<rparr>
   \<and> map sr_status (active_for ''123'' ''us-east-1'' (committed (projr
        (scan_all_resources ''123'' ''us-east-1'' example_provider 200
          \<lparr>committed = \<lparr>scan_results = [old_finding\<lparr>sr_timestamp := 100\<rparr>],
                         scan_history_rows = []\<rparr>,
           pending_results = [], pending_history = [], pending_deletes = [],
           observed = [\<lparr>scan_results = [], scan_history_rows = []\<rparr>,
                       \<lparr>scan_results = [old_finding\<lparr>sr_timestamp := 100\<rparr>],
                        scan_history_rows = []\<rparr>]\<rparr>))))
     = [''NEW'']
   \<and> map sr_resource_id (scan_results (fst
        (scheduled_scan_job every_target_scans later_uuid4
           (Some \<lparr>enabled = True, interval_hours = 24, accounts = [first_target]\<rparr>)
           (fst (scheduled_scan_job every_target_scans example_uuid4
                  (Some \<lparr>enabled = True, interval_hours = 24, accounts = [first_target]\<rparr>)
                  empty_database 1000))
           2000)))
     = [''logs'', ''assets'', ''backup'', ''logs'', ''assets'', ''backup'']
   \<and> map sr_first_detected (scan_results (fst
        (scheduled_scan_job every_target_scans later_uuid4
           (Some \<lparr>enabled = True, interval_hours = 24, accounts = [first_target]\<rparr>)
           (fst (scheduled_scan_job every_target_scans example_uuid4
                  (Some \<lparr>enabled = True, interval_hours = 24, accounts = [first_target]\<rparr>)
                  empty_database 1000))
           2000)))
     = [Some 1005, Some 1005, Some 1005, Some 2005, Some 2005, Some 2005]
   \<and> map sr_status (scan_results (fst
        (scheduled_scan_job every_target_scans later_uuid4
           (Some \<lparr>enabled = True, interval_hours = 24, accounts = [first_target]\<rparr>)
           (fst (scheduled_scan_job every_target_scans example_uuid4
                  (Some \<lparr>enabled = True, interval_hours = 24, accounts = [first_target]\<rparr>)
                  empty_database 1000))
           2000)))
     = [''NEW'', ''NEW'', ''NEW'', ''NEW'', ''NEW'', ''NEW'']"
  by code_simp

section \<open>The two scores and where they are reported\<close>

lemma compliant_count:
  "int (length rs) - int (length (filter (\<lambda>r. \<not> P r) rs)) = int (length (filter P rs))"
  using sum_length_filter_compl[of P rs] by simp

text \<open>
  Claim C8, as amended. Both formulas are implemented, \<open>get_compliance_score\<close> being
  the severity weighted one, but every reporting surface computes the resource coverage
  score \<open>compliant / total * 100\<close>: the executive summary of the report, the dashboard
  (rounded to two decimal places) and the records of \<open>scan_history\<close> (truncated to an
  integer). The report's summary does not depend on the severities of its rows; the
  severity weighted score is reported on none of the surfaces.
\<close>

theorem coverage_score_on_every_surface:
  "(results \<noteq> [] \<longrightarrow>
      generate_pdf results =
        Inr \<lparr>rp_compliance_score =
               coverage_score (int (length (filter sr_is_compliant results))) (int (length results)),
             rp_total = int (length results),
             rp_compliant = int (length (filter sr_is_compliant results)),
             rp_violations = int (length (filter (\<lambda>r. \<not> sr_is_compliant r) results))\<rparr>)
   \<and> (scan_results d \<noteq> [] \<longrightarrow>
      d_compliance_score (get_dashboard d) =
        py_round2 (coverage_score (int (length (filter sr_is_compliant (scan_results d))))
                     (int (length (scan_results d)))))
   \<and> (rs \<noteq> [] \<longrightarrow>
      sh_compliance_score (scheduled_ScanHistory sid acct t0 t1 rs) =
        py_int (coverage_score (int (length (filter r_is_compliant rs))) (int (length rs))))
   \<and> generate_pdf (map (\<lambda>x. x\<lparr>sr_severity := s\<rparr>) results) = generate_pdf results"
proof -
  have 1: "results \<noteq> [] \<longrightarrow>
      generate_pdf results =
        Inr \<lparr>rp_compliance_score =
               coverage_score (int (length (filter sr_is_compliant results))) (int (length results)),
             rp_total = int (length results),
             rp_compliant = int (length (filter sr_is_compliant results)),
             rp_violations = int (length (filter (\<lambda>r. \<not> sr_is_compliant r) results))\<rparr>"
    by (simp add: generate_pdf_def coverage_score_def Let_def compliant_count)
  have 2: "scan_results d \<noteq> [] \<longrightarrow>
      d_compliance_score (get_dashboard d) =
        py_round2 (coverage_score (int (length (filter sr_is_compliant (scan_results d))))
                     (int (length (scan_results d))))"
    by (simp add: get_dashboard_def coverage_score_def Let_def)
  have 3: "rs \<noteq> [] \<longrightarrow>
      sh_compliance_score (scheduled_ScanHistory sid acct t0 t1 rs) =
        py_int (coverage_score (int (length (filter r_is_compliant rs))) (int (length rs)))"
    by (simp add: scheduled_ScanHistory_def coverage_score_def Let_def compliant_count)
  have 4: "generate_pdf (map (\<lambda>x. x\<lparr>sr_severity := s\<rparr>) results) = generate_pdf results"
    by (simp add: generate_pdf_def Let_def filter_map comp_def)
  show ?thesis using 1 2 3 4 by blast
qed

theorem coverage_score_on_every_surface_witness:
  "report_rows \<noteq> []
   \<and> generate_pdf report_rows =
        Inr \<lparr>rp_compliance_score = coverage_score 2 3, rp_total = 3, rp_compliant = 2,
             rp_violations = 1\<rparr>
   \<and> d_compliance_score (get_dashboard \<lparr>scan_results = report_rows, scan_history_rows = []\<rparr>)
        = py_round2 (coverage_score 2 3)
   \<and> example_results \<noteq> []
   \<and> sh_compliance_score
        (scheduled_ScanHistory ''scan-0'' first_target 1000 1005 example_results)
        = py_int (coverage_score 2 3)
   \<and> py_int (coverage_score 2 3) = 66"
proof -
  have c: "int (length (filter sr_is_compliant report_rows)) = 2" "int (length report_rows) = 3"
    "int (length (filter (\<lambda>r. \<not> sr_is_compliant r) report_rows)) = 1" "report_rows \<noteq> []"
    "int (length (filter r_is_compliant example_results)) = 2" "int (length example_results) = 3"
    "example_results \<noteq> []"
    by (simp_all add: report_rows_def high_finding_def old_finding_def example_results_def)
  have v: "py_int (coverage_score 2 3) = 66" by code_simp
  show ?thesis
    using c v coverage_score_on_every_surface
      [of report_rows "\<lparr>scan_results = report_rows, scan_history_rows = []\<rparr>" example_results
          "''scan-0''" first_target 1000 1005 "''HIGH''"]
    by simp
qed

text \<open>
  Claim C8 as stated fails: for a report of one violation of severity HIGH the summary
  shows the coverage score 0, where the severity weighted score is 30.
\<close>

theorem report_score_counterexample:
  "generate_pdf [high_finding]
     = Inr \<lparr>rp_compliance_score = 0, rp_total = 1, rp_compliant = 0, rp_violations = 1\<rparr>
   \<and> severity_weighted_of_rows [high_finding] = Inr 30"
  by code_simp

section \<open>Further properties\<close>

text \<open>
  The score of a non-empty list of violations with known severities differs from the
  exact value \<open>100 - 10 * (sum of weights) / count\<close> of the formula by at most 0.0051:
  half a unit of the second decimal place for the rounding to two places, and the
  rounding errors of the float operations.
\<close>

theorem score_close_to_exact_formula:
  assumes "vs \<noteq> []" and "find unknown_severity vs = None"
  shows "\<exists>s. get_compliance_score vs = Inr s
     \<and> \<bar>s - (100 - 10 * of_int (sum_list (map spec_weight vs)) / of_int (int (length vs)))\<bar>
         \<le> 51 / 10000"
proof -
  have t: "sum_scores vs = Inr (sum_list (map spec_weight vs))"
    using assms(2) by (simp add: sum_scores_find)
  have n: "0 < int (length vs)" using assms(1) by simp
  have "\<bar>py_round2 (max 0 (py_sub 100 (py_mul
            (py_truediv (sum_list (map spec_weight vs)) (int (length vs) * 10)) 100)))
          - (100 - 10 * of_int (sum_list (map spec_weight vs)) / of_int (int (length vs)))\<bar>
        \<le> 51 / 10000"
    using score_close_to_exact[OF n sum_scores_bounds[OF t] sum_scores_upper[OF t]] .
  then show ?thesis using assms(1) t by (simp add: get_compliance_score_def Let_def)
qed

theorem score_close_to_exact_formula_witness:
  "[[(''severity'', ''HIGH'')], [(''severity'', ''LOW'')], [(''severity'', ''LOW'')]] \<noteq> []
   \<and> find unknown_severity
        [[(''severity'', ''HIGH'')], [(''severity'', ''LOW'')], [(''severity'', ''LOW'')]] = None
   \<and> (\<exists>s. get_compliance_score
              [[(''severity'', ''HIGH'')], [(''severity'', ''LOW'')], [(''severity'', ''LOW'')]]
            = Inr s
          \<and> \<bar>s - (100 - 10 * 11 / 3)\<bar> \<le> 51 / 10000)"
proof -
  have h: "find unknown_severity
        [[(''severity'', ''HIGH'')], [(''severity'', ''LOW'')], [(''severity'', ''LOW'')]] = None"
    by (simp add: unknown_severity_def)
  have w: "sum_list (map spec_weight
        [[(''severity'', ''HIGH'')], [(''severity'', ''LOW'')], [(''severity'', ''LOW'')]]) = 11"
    by (simp add: spec_weight_def)
  show ?thesis
    using h score_close_to_exact_formula
      [of "[[(''severity'', ''HIGH'')], [(''severity'', ''LOW'')], [(''severity'', ''LOW'')]]", OF _ h]
    by (simp add: spec_weight_def)
qed

lemma find_unknown_None:
  "find unknown_severity vs = None \<longleftrightarrow> list_all (\<lambda>v. \<not> unknown_severity v) vs"
  by (induction vs) simp_all

text \<open>
  Replacing a violation of severity LOW by one of severity CRITICAL, in a list whose
  other violations have known severities, never increases the score.
\<close>

theorem worse_severity_never_raises_score:
  assumes "list_all (\<lambda>x. \<not> unknown_severity x) (xs @ ys)"
    and "map_of v ''severity'' = Some ''LOW''"
    and "map_of v' ''severity'' = Some ''CRITICAL''"
  shows "\<exists>s s'. get_compliance_score (xs @ v # ys) = Inr s
     \<and> get_compliance_score (xs @ v' # ys) = Inr s' \<and> s' \<le> s"
proof -
  define t where "t = sum_list (map spec_weight (xs @ v # ys))"
  define t' where "t' = sum_list (map spec_weight (xs @ v' # ys))"
  have k: "\<not> unknown_severity v" "\<not> unknown_severity v'"
    using assms(2,3) by (simp_all add: unknown_severity_def)
  have f: "find unknown_severity (xs @ v # ys) = None" "find unknown_severity (xs @ v' # ys) = None"
    using assms(1) k by (simp_all add: find_unknown_None)
  have s: "sum_scores (xs @ v # ys) = Inr t" "sum_scores (xs @ v' # ys) = Inr t'"
    using f by (simp_all add: sum_scores_find t_def t'_def)
  have w: "spec_weight v = 2" "spec_weight v' = 10"
    using assms(2,3) by (simp_all add: spec_weight_def)
  have tt: "t \<le> t'" by (simp add: t_def t'_def w)
  have n: "0 < int (length (xs @ v # ys))" by simp
  have t0: "0 < t" using sum_scores_bounds[OF s(1)] by simp
  have "py_round2 (max 0 (py_sub 100 (py_mul (py_truediv t' (int (length (xs @ v # ys)) * 10)) 100)))
       \<le> py_round2 (max 0 (py_sub 100 (py_mul (py_truediv t (int (length (xs @ v # ys)) * 10)) 100)))"
    by (rule weighted_score_antimono[OF n t0 tt])
  then show ?thesis using s by (simp add: get_compliance_score_def Let_def)
qed

theorem worse_severity_never_raises_score_witness:
  "get_compliance_score [[(''severity'', ''HIGH'')], [(''severity'', ''LOW'')]] = Inr 55
   \<and> get_compliance_score [[(''severity'', ''HIGH'')], [(''severity'', ''CRITICAL'')]] = Inr 15"
proof -
  have h: "list_all (\<lambda>x. \<not> unknown_severity x) ([[(''severity'', ''HIGH'')]] @ [])"
    by (simp add: unknown_severity_def)
  have 1: "get_compliance_score [[(''severity'', ''HIGH'')], [(''severity'', ''LOW'')]] = Inr 55"
    by code_simp
  have 2: "get_compliance_score [[(''severity'', ''HIGH'')], [(''severity'', ''CRITICAL'')]] = Inr 15"
    by code_simp
  show ?thesis
    using 1 2 worse_severity_never_raises_score
      [of "[[(''severity'', ''HIGH'')]]" "[]" "[(''severity'', ''LOW'')]"
          "[(''severity'', ''CRITICAL'')]", OF h]
    by simp
qed

lemma check_attached_none:
  "list_all (\<lambda>p. p \<notin> set RISKY_POLICIES \<and> \<not> str_contains ''FullAccess'' p) ps
     \<Longrightarrow> check_attached ps acc = acc"
  by (induction ps arbitrary: acc) simp_all

text \<open>
  Eleven attached policies, none of them risky, and no inline policy give level MEDIUM
  with the single reason of excessive policies.
\<close>

theorem eleven_plain_policies_medium:
  assumes "length a = 11"
    and "list_all (\<lambda>p. p \<notin> set RISKY_POLICIES \<and> \<not> str_contains ''FullAccess'' p) a"
  shows "analyze_risk a [] = (''MEDIUM'', [''Has 11 policies (excessive)''])"
proof -
  have s: "str_nat 11 = ''11''" by code_simp
  have na: "''AdministratorAccess'' \<notin> set a" "''IAMFullAccess'' \<notin> set a"
    using assms(2) by (auto simp: list_all_iff RISKY_POLICIES_def)
  show ?thesis
    using assms(1) na by (simp add: analyze_risk_def check_attached_none[OF assms(2)] s Let_def)
qed

theorem eleven_plain_policies_medium_witness:
  "length [''p1'', ''p2'', ''p3'', ''p4'', ''p5'', ''p6'', ''p7'', ''p8'', ''p9'', ''p10'', ''p11''] = 11
   \<and> analyze_risk [''p1'', ''p2'', ''p3'', ''p4'', ''p5'', ''p6'', ''p7'', ''p8'', ''p9'', ''p10'', ''p11''] []
      = (''MEDIUM'', [''Has 11 policies (excessive)''])"
proof -
  have h: "list_all (\<lambda>p. p \<notin> set RISKY_POLICIES \<and> \<not> str_contains ''FullAccess'' p)
      [''p1'', ''p2'', ''p3'', ''p4'', ''p5'', ''p6'', ''p7'', ''p8'', ''p9'', ''p10'', ''p11'']"
    by (simp add: RISKY_POLICIES_def)
  show ?thesis
    using eleven_plain_policies_medium
      [of "[''p1'', ''p2'', ''p3'', ''p4'', ''p5'', ''p6'', ''p7'', ''p8'', ''p9'', ''p10'', ''p11'']", OF _ h]
    by simp
qed

text \<open>
  Enabling monitoring and then disabling it leaves no job scheduled and a stored
  configuration that is disabled.
\<close>

theorem enable_then_disable_leaves_no_job:
  assumes "writable"
  shows "jobs (snd (configure_monitoring trigger_ok writable False h2 a2
            (snd (configure_monitoring trigger_ok writable True h1 a1 st)))) = []
     \<and> map_option enabled (config_file (snd (configure_monitoring trigger_ok writable False h2 a2
            (snd (configure_monitoring trigger_ok writable True h1 a1 st))))) = Some False"
  using assms
  by (simp add: configure_monitoring_def save_config_def load_config_def Let_def
      split: option.splits)

theorem enable_then_disable_leaves_no_job_witness:
  "jobs (snd (configure_monitoring (\<lambda>h. 0 < h) True False 24 None
            (snd (configure_monitoring (\<lambda>h. 0 < h) True True 24 (Some [first_target])
               \<lparr>config_file = None, jobs = []\<rparr>)))) = []
   \<and> jobs (snd (configure_monitoring (\<lambda>h. 0 < h) True True 24 (Some [first_target])
               \<lparr>config_file = None, jobs = []\<rparr>)) = [(''compliance_scan'', 24)]"
proof -
  have j: "jobs (snd (configure_monitoring (\<lambda>h. 0 < h) True True 24 (Some [first_target])
               \<lparr>config_file = None, jobs = []\<rparr>)) = [(''compliance_scan'', 24)]"
    by (simp add: configure_monitoring_def save_config_def load_config_def Let_def)
  show ?thesis
    using j enable_then_disable_leaves_no_job
      [of True "\<lambda>h. 0 < h" 24 None 24 "Some [first_target]" "\<lparr>config_file = None, jobs = []\<rparr>"]
    by simp
qed

text \<open>
  A firing while monitoring is disabled, or with no target configured, changes nothing.
\<close>

theorem disabled_or_no_target_firing_is_noop:
  assumes "\<not> enabled (load_config cf) \<or> accounts (load_config cf) = []"
  shows "scheduled_scan_job scan uuid4 cf d clock = (d, clock)"
  using assms by (auto simp: scheduled_scan_job_def Let_def)

theorem disabled_or_no_target_firing_is_noop_witness:
  "scheduled_scan_job every_target_scans example_uuid4 None example_database 1000
     = (example_database, 1000)
   \<and> scheduled_scan_job every_target_scans example_uuid4
        (Some \<lparr>enabled = True, interval_hours = 24, accounts = []\<rparr>) example_database 1000
     = (example_database, 1000)"
proof -
  have 1: "\<not> enabled (load_config None) \<or> accounts (load_config None) = []"
    by (simp add: load_config_def DEFAULT_CONFIG_def)
  have 2: "\<not> enabled (load_config (Some \<lparr>enabled = True, interval_hours = 24, accounts = []\<rparr>))
      \<or> accounts (load_config (Some \<lparr>enabled = True, interval_hours = 24, accounts = []\<rparr>)) = []"
    by (simp add: load_config_def)
  show ?thesis
    using disabled_or_no_target_firing_is_noop [OF 1, of every_target_scans example_uuid4 example_database 1000]
      disabled_or_no_target_firing_is_noop [OF 2, of every_target_scans example_uuid4 example_database 1000]
    by simp
qed

text \<open>
  Stopping keeps the interval and the targets: starting again restores the job with the
  stored interval and the stored targets.
\<close>

theorem stop_then_start_resumes:
  assumes "writable" and "trigger_ok (interval_hours c)"
  shows "start_monitoring trigger_ok writable
           (stop_monitoring writable \<lparr>config_file = Some c, jobs = js\<rparr>)
         = (Inr (c\<lparr>enabled := True\<rparr>),
            \<lparr>config_file = Some (c\<lparr>enabled := True\<rparr>),
             jobs = [(''compliance_scan'', interval_hours c)]\<rparr>)"
  using assms
  by (cases c)
    (simp add: start_monitoring_def stop_monitoring_def configure_monitoring_def
      save_config_def load_config_def Let_def)

theorem stop_then_start_resumes_witness:
  "start_monitoring (\<lambda>h. 0 < h) True
      (stop_monitoring True
         \<lparr>config_file = Some \<lparr>enabled = True, interval_hours = 6, accounts = [first_target]\<rparr>,
          jobs = [(''compliance_scan'', 6)]\<rparr>)
    = (Inr \<lparr>enabled = True, interval_hours = 6, accounts = [first_target]\<rparr>,
       \<lparr>config_file = Some \<lparr>enabled = True, interval_hours = 6, accounts = [first_target]\<rparr>,
        jobs = [(''compliance_scan'', 6)]\<rparr>)"
  using stop_then_start_resumes
    [of True "\<lambda>h. 0 < h" "\<lparr>enabled = True, interval_hours = 6, accounts = [first_target]\<rparr>"
        "[(''compliance_scan'', 6)]"]
  by simp

end
